theory Spec2Isabelle
  imports Complex_Main "HOL-Library.Word"
begin

unbundle bit_operations_syntax

section \<open>Strings and bytes of the platform\<close>

text \<open>
  A JavaScript string is a sequence of 16-bit code units; a \<open>Uint8Array\<close> is a sequence
  of bytes. String literals of the source are ASCII and are written through \<open>lit\<close>.
\<close>

type_synonym byte = "8 word"
type_synonym jsstring = "16 word list"

definition lit :: "string \<Rightarrow> jsstring" where
  "lit s = map (\<lambda>c. of_nat (of_char c)) s"

text \<open>
  A message built by a template literal: its text, and the numbers it interpolates, kept
  as numbers.
\<close>

datatype part = Text jsstring | Number int

type_synonym message = "part list"

text \<open>\<open>s.startsWith(p)\<close> and \<open>s.slice(n)\<close> for \<open>n \<ge> 0\<close>.\<close>

fun startsWith :: "jsstring \<Rightarrow> jsstring \<Rightarrow> bool" where
  "startsWith s [] = True"
| "startsWith [] (p # ps) = False"
| "startsWith (c # cs) (p # ps) = (c = p \<and> startsWith cs ps)"

definition slice :: "jsstring \<Rightarrow> nat \<Rightarrow> jsstring" where
  "slice s n = drop n s"

text \<open>
  \<open>s.split('\n')\<close>: the pieces between the line feeds, in order; a string with \<open>k\<close> line
  feeds has \<open>k + 1\<close> pieces, the last one being what follows the last line feed.
\<close>

fun split_nl :: "jsstring \<Rightarrow> jsstring list" where
  "split_nl [] = [[]]"
| "split_nl (c # cs) =
     (let r = split_nl cs in if c = 0x0A then [] # r else (c # hd r) # tl r)"

subsection \<open>The streaming UTF-8 decoder behind \<open>TextDecoder\<close>\<close>

text \<open>
  \<open>new TextDecoder()\<close> with \<open>decode(value, { stream: true })\<close> is the platform's UTF-8
  decoder in replacement mode. It consumes one byte at a time and keeps, between calls,
  the partial code point, the number of continuation bytes seen and needed, the bounds
  for the next byte and the flag that the byte order mark has been looked for. An
  ill-formed sequence yields U+FFFD; a byte that cannot continue a sequence is processed
  again as the first byte of a new one. The source never calls \<open>decode\<close> without
  \<open>stream: true\<close>, so the decoder is never flushed.
\<close>

record decoder =
  code_point :: nat
  bytes_seen :: nat
  bytes_needed :: nat
  lower_boundary :: byte
  upper_boundary :: byte
  bom_seen :: bool

definition new_TextDecoder :: decoder where
  "new_TextDecoder =
     \<lparr>code_point = 0, bytes_seen = 0, bytes_needed = 0,
      lower_boundary = 0x80, upper_boundary = 0xBF, bom_seen = False\<rparr>"

definition reset_sequence :: "decoder \<Rightarrow> decoder" where
  "reset_sequence d =
     d\<lparr>code_point := 0, bytes_seen := 0, bytes_needed := 0,
       lower_boundary := 0x80, upper_boundary := 0xBF\<rparr>"

text \<open>The first byte of a sequence; the result is the new state and the code points produced.\<close>

definition first_byte :: "decoder \<Rightarrow> byte \<Rightarrow> decoder \<times> nat list" where
  "first_byte d b =
     (if b \<le> 0x7F then (d, [unat b])
      else if 0xC2 \<le> b \<and> b \<le> 0xDF then
        (d\<lparr>bytes_needed := 1, code_point := unat (b AND 0x1F)\<rparr>, [])
      else if 0xE0 \<le> b \<and> b \<le> 0xEF then
        (d\<lparr>lower_boundary := (if b = 0xE0 then 0xA0 else lower_boundary d),
           upper_boundary := (if b = 0xED then 0x9F else upper_boundary d),
           bytes_needed := 2, code_point := unat (b AND 0xF)\<rparr>, [])
      else if 0xF0 \<le> b \<and> b \<le> 0xF4 then
        (d\<lparr>lower_boundary := (if b = 0xF0 then 0x90 else lower_boundary d),
           upper_boundary := (if b = 0xF4 then 0x8F else upper_boundary d),
           bytes_needed := 3, code_point := unat (b AND 0x7)\<rparr>, [])
      else (d, [0xFFFD]))"

definition utf8_byte :: "decoder \<Rightarrow> byte \<Rightarrow> decoder \<times> nat list" where
  "utf8_byte d b =
     (if bytes_needed d = 0 then first_byte d b
      else if \<not> (lower_boundary d \<le> b \<and> b \<le> upper_boundary d) then
        (let (d', out) = first_byte (reset_sequence d) b in (d', 0xFFFD # out))
      else
        (let cp = code_point d * 64 + unat (b AND 0x3F);
             seen = bytes_seen d + 1
         in if seen \<noteq> bytes_needed d then
              (d\<lparr>lower_boundary := 0x80, upper_boundary := 0xBF,
                 code_point := cp, bytes_seen := seen\<rparr>, [])
            else (reset_sequence d, [cp])))"

text \<open>A code point as UTF-16 code units: a surrogate pair above U+FFFF.\<close>

definition code_units :: "nat \<Rightarrow> jsstring" where
  "code_units cp =
     (if cp \<le> 0xFFFF then [of_nat cp]
      else [of_nat (0xD800 + (cp - 0x10000) div 1024),
            of_nat (0xDC00 + (cp - 0x10000) mod 1024)])"

text \<open>The first code point of the stream is dropped when it is the byte order mark.\<close>

fun serialize :: "decoder \<Rightarrow> nat list \<Rightarrow> decoder \<times> jsstring" where
  "serialize d [] = (d, [])"
| "serialize d (cp # cps) =
     (if \<not> bom_seen d \<and> cp = 0xFEFF then serialize (d\<lparr>bom_seen := True\<rparr>) cps
      else (let (d', s) = serialize (d\<lparr>bom_seen := True\<rparr>) cps in (d', code_units cp @ s)))"

definition decode_byte :: "decoder \<Rightarrow> byte \<Rightarrow> decoder \<times> jsstring" where
  "decode_byte d b = (let (d', cps) = utf8_byte d b in serialize d' cps)"

text \<open>\<open>decoder.decode(value, { stream: true })\<close>.\<close>

fun decode :: "decoder \<Rightarrow> byte list \<Rightarrow> decoder \<times> jsstring" where
  "decode d [] = (d, [])"
| "decode d (b # bs) =
     (let (d1, s1) = decode_byte d b; (d2, s2) = decode d1 bs in (d2, s1 @ s2))"

section \<open>The read loop of the streaming \<open>processFile\<close>\<close>

text \<open>
  The body of the response is read chunk by chunk until the reader reports \<open>done\<close> or
  a read fails. A read that is not the last one carries a \<open>Uint8Array\<close>, which is truthy
  even when it is empty; the last one carries no value.
\<close>

text \<open>What a rejected promise carries: an \<open>Error\<close> with its message, or a value that is no \<open>Error\<close>.\<close>

datatype failure = An_Error message | Not_an_Error

datatype ending = EndOfStream | ReadFailure failure

definition data_prefix :: jsstring where
  "data_prefix = lit ''data: ''"

text \<open>\<open>lines.pop() || ''\<close> on the non-empty array that \<open>split\<close> returns.\<close>

definition pop_or_empty :: "jsstring list \<Rightarrow> jsstring" where
  "pop_or_empty lines = (let l = last lines in if l = [] then [] else l)"

text \<open>
  The \<open>for\<close> loop over the complete lines: \<open>on_frame\<close> stands for the guarded
  \<open>try\<close> block run on a line that starts with the prefix.
\<close>

definition for_lines :: "('s \<Rightarrow> jsstring \<Rightarrow> 's) \<Rightarrow> 's \<Rightarrow> jsstring list \<Rightarrow> 's" where
  "for_lines on_frame st lines =
     foldl (\<lambda>s line. if startsWith line data_prefix then on_frame s line else s) st lines"

text \<open>
  The \<open>while (true)\<close> loop. The result is the state reached and, when a read failed,
  what the read threw.
\<close>

fun read_loop ::
  "('s \<Rightarrow> jsstring \<Rightarrow> 's) \<Rightarrow> ('s \<Rightarrow> jsstring \<Rightarrow> 's) \<Rightarrow>
   decoder \<Rightarrow> jsstring \<Rightarrow> byte list list \<Rightarrow> ending \<Rightarrow> 's \<Rightarrow> 's \<times> failure option" where
  "read_loop on_frame on_final dec buffer [] (ReadFailure m) st = (st, Some m)"
| "read_loop on_frame on_final dec buffer [] EndOfStream st =
     (let lines = split_nl buffer;
          buffer' = pop_or_empty lines;
          st' = for_lines on_frame st (butlast lines)
      in (if startsWith buffer' data_prefix then on_final st' buffer' else st', None))"
| "read_loop on_frame on_final dec buffer (value # rest) e st =
     (let (dec', text) = decode dec value;
          buffer1 = buffer @ text;
          lines = split_nl buffer1;
          buffer' = pop_or_empty lines;
          st' = for_lines on_frame st (butlast lines)
      in read_loop on_frame on_final dec' buffer' rest e st')"

text \<open>
  The frames of a stream: the lines on which the loop runs one of its two \<open>try\<close>
  blocks, in the order in which it runs them.
\<close>

definition frames :: "byte list list \<Rightarrow> jsstring list" where
  "frames chunks =
     fst (read_loop (\<lambda>acc line. acc @ [line]) (\<lambda>acc line. acc @ [line])
            new_TextDecoder [] chunks EndOfStream [])"


section \<open>Numbers\<close>

text \<open>
  A JavaScript number is a binary64 value. The model keeps a finite value as the rational
  it denotes and the three special values apart; the negative zero is not told from
  zero. Every arithmetic operation yields the exact result rounded to the nearest
  binary64 value, a tie going to the even significand, and an infinity when the rounded
  result is beyond the largest finite value. Division by zero gives an infinity or NaN,
  and NaN compares false with everything.
\<close>

datatype jsnum = Num rat | PInf | NInf | NaN

text \<open>Rounding a rational to the nearest integer, a tie going to the even one.\<close>

definition rne :: "rat \<Rightarrow> int" where
  "rne a =
     (let f = \<lfloor>a\<rfloor>; d = a - of_int f
      in if d < 1 / 2 then f else if 1 / 2 < d then f + 1 else if even f then f else f + 1)"

text \<open>The exponent \<open>e\<close> of a positive rational: \<open>2\<^sup>e \<le> x < 2\<^sup>e\<^sup>+\<^sup>1\<close>.\<close>

function binade :: "rat \<Rightarrow> int" where
  "binade x =
     (if x \<le> 0 then 0
      else if 2 \<le> x then binade (x / 2) + 1
      else if x < 1 then binade (x * 2) - 1
      else 0)"
  by pat_completeness auto
termination
proof (relation "measure (\<lambda>x. nat \<lceil>x\<rceil> + 2 * nat \<lceil>1 / x\<rceil>)")
  show "wf (measure (\<lambda>x. nat \<lceil>x\<rceil> + 2 * nat \<lceil>1 / x\<rceil>))"
    by simp
next
  fix x :: rat
  assume "\<not> x \<le> 0" "2 \<le> x"
  then have a: "\<lceil>x / 2\<rceil> < \<lceil>x\<rceil>"
    by (simp add: ceiling_less_iff) linarith
  have b: "\<lceil>1 / (x / 2)\<rceil> = 1" "\<lceil>1 / x\<rceil> = 1"
    using \<open>2 \<le> x\<close> by (simp_all add: ceiling_eq_iff field_simps)
  have "0 < \<lceil>x\<rceil>"
    using \<open>2 \<le> x\<close> by (simp add: less_ceiling_iff)
  with a b show "(x / 2, x) \<in> measure (\<lambda>x. nat \<lceil>x\<rceil> + 2 * nat \<lceil>1 / x\<rceil>)"
    by simp
next
  fix x :: rat
  assume x: "\<not> x \<le> 0" "\<not> 2 \<le> x" "x < 1"
  have c1: "\<lceil>x\<rceil> = 1"
    using x by (simp add: ceiling_eq_iff)
  have c2: "\<lceil>x * 2\<rceil> \<le> 2"
    using x by (simp add: ceiling_le_iff)
  have "1 < 1 / x"
    using x by (simp add: field_simps)
  then have c3: "2 \<le> \<lceil>1 / x\<rceil>"
    by (simp add: le_ceiling_iff)
  have "1 / (x * 2) \<le> of_int \<lceil>1 / x\<rceil> - 1"
  proof -
    have "1 / (x * 2) = (1 / x) / 2"
      by simp
    also have "\<dots> \<le> of_int \<lceil>1 / x\<rceil> / 2"
      by (simp add: divide_right_mono)
    also have "\<dots> \<le> of_int \<lceil>1 / x\<rceil> - 1"
    proof -
      have "(2::rat) \<le> of_int \<lceil>1 / x\<rceil>"
        using c3 by (metis of_int_le_iff of_int_numeral)
      then show ?thesis by simp
    qed
    finally show ?thesis .
  qed
  then have c4: "\<lceil>1 / (x * 2)\<rceil> \<le> \<lceil>1 / x\<rceil> - 1"
    by (metis ceiling_le_iff of_int_diff of_int_1)
  from c2 have n2: "nat \<lceil>x * 2\<rceil> \<le> 2"
    by arith
  from c3 c4 have n3: "nat \<lceil>1 / (x * 2)\<rceil> + 1 \<le> nat \<lceil>1 / x\<rceil>"
    by arith
  from c1 have n1: "nat \<lceil>x\<rceil> = 1"
    by simp
  have "nat \<lceil>x * 2\<rceil> + 2 * nat \<lceil>1 / (x * 2)\<rceil> < nat \<lceil>x\<rceil> + 2 * nat \<lceil>1 / x\<rceil>"
    using n1 n2 n3 by arith
  then show "(x * 2, x) \<in> measure (\<lambda>x. nat \<lceil>x\<rceil> + 2 * nat \<lceil>1 / x\<rceil>)"
    by simp
qed

declare binade.simps [simp del]

text \<open>
  The exponent of the unit in the last place of a rational: 52 below its own exponent,
  and that of the subnormal numbers for everything smaller than \<open>2\<^sup>-\<^sup>1\<^sup>0\<^sup>2\<^sup>2\<close>.
\<close>

definition ulp_exponent :: "rat \<Rightarrow> int" where
  "ulp_exponent x = max (binade \<bar>x\<bar>) (- 1022) - 52"

text \<open>The nearest binary64 value, were the exponent unbounded above; then the overflow.\<close>

definition round64 :: "rat \<Rightarrow> rat" where
  "round64 x = of_int (rne (x / 2 powi ulp_exponent x)) * 2 powi ulp_exponent x"

definition fl :: "rat \<Rightarrow> jsnum" where
  "fl x =
     (let y = round64 x
      in if 2 ^ 1024 \<le> y then PInf else if y \<le> - (2 ^ 1024) then NInf else Num y)"

fun js_div :: "jsnum \<Rightarrow> jsnum \<Rightarrow> jsnum" where
  "js_div NaN y = NaN"
| "js_div x NaN = NaN"
| "js_div (Num a) (Num b) =
     (if b = 0 then (if a = 0 then NaN else if 0 < a then PInf else NInf) else fl (a / b))"
| "js_div (Num a) PInf = Num 0"
| "js_div (Num a) NInf = Num 0"
| "js_div PInf (Num b) = (if 0 \<le> b then PInf else NInf)"
| "js_div NInf (Num b) = (if 0 \<le> b then NInf else PInf)"
| "js_div PInf y = NaN"
| "js_div NInf y = NaN"

fun js_mul :: "jsnum \<Rightarrow> jsnum \<Rightarrow> jsnum" where
  "js_mul NaN y = NaN"
| "js_mul x NaN = NaN"
| "js_mul (Num a) (Num b) = fl (a * b)"
| "js_mul (Num a) PInf = (if a = 0 then NaN else if 0 < a then PInf else NInf)"
| "js_mul (Num a) NInf = (if a = 0 then NaN else if 0 < a then NInf else PInf)"
| "js_mul PInf (Num b) = (if b = 0 then NaN else if 0 < b then PInf else NInf)"
| "js_mul NInf (Num b) = (if b = 0 then NaN else if 0 < b then NInf else PInf)"
| "js_mul PInf PInf = PInf"
| "js_mul PInf NInf = NInf"
| "js_mul NInf PInf = NInf"
| "js_mul NInf NInf = PInf"

text \<open>
  \<open>Math.round\<close>: the nearest integer, a tie going towards plus infinity. The result is
  exact: a binary64 value of magnitude \<open>2\<^sup>5\<^sup>2\<close> or more is an integer already.
\<close>

fun Math_round :: "jsnum \<Rightarrow> jsnum" where
  "Math_round (Num x) = Num (of_int \<lfloor>x + 1 / 2\<rfloor>)"
| "Math_round x = x"

text \<open>Addition, the comparison \<open><\<close> and \<open>Math.min\<close> of two numbers.\<close>

fun js_add :: "jsnum \<Rightarrow> jsnum \<Rightarrow> jsnum" where
  "js_add NaN y = NaN"
| "js_add x NaN = NaN"
| "js_add (Num a) (Num b) = fl (a + b)"
| "js_add PInf NInf = NaN"
| "js_add NInf PInf = NaN"
| "js_add PInf y = PInf"
| "js_add NInf y = NInf"
| "js_add x PInf = PInf"
| "js_add x NInf = NInf"

fun js_less :: "jsnum \<Rightarrow> jsnum \<Rightarrow> bool" where
  "js_less NaN y = False"
| "js_less x NaN = False"
| "js_less (Num a) (Num b) = (a < b)"
| "js_less NInf NInf = False"
| "js_less NInf y = True"
| "js_less x PInf = (x \<noteq> PInf)"
| "js_less x y = False"

fun Math_min :: "jsnum \<Rightarrow> jsnum \<Rightarrow> jsnum" where
  "Math_min NaN y = NaN"
| "Math_min x NaN = NaN"
| "Math_min x y = (if js_less y x then y else x)"

section \<open>The streaming component\<close>

subsection \<open>Data\<close>

record ProcessingResult =
  total :: int
  encontrados :: int
  noEncontrados :: int
  errores :: int

datatype entry_type = T_info | T_found | T_not_found | T_error | T_complete

text \<open>
  A log entry. Two of its fields are left out: the \<open>timestamp\<close>, the wall-clock time at
  which the entry is built, and the \<open>id\<close>, which is read from \<open>logIdRef\<close> only when React
  runs the queued update, so that its value depends on how the updates are batched.
\<close>

record LogEntry =
  entry_type :: entry_type
  row :: "int option"
  direccion :: "jsstring option"
  municipio :: "jsstring option"
  cp :: "jsstring option"
  message :: "message option"

record ApiError =
  error_message :: message
  error_status :: "int option"
  error_details :: "jsstring option"

datatype ApiStatus = Checking | Online | Offline

text \<open>What \<open>URL.createObjectURL(blob)\<close> returns: a URL that stands for the bytes of the blob.\<close>

datatype object_url = ObjectURL "byte list"

text \<open>A value that was thrown, and a call of \<open>console.warn\<close> with its label.\<close>

datatype thrown = SyntaxError | InvalidCharacterError

datatype warning = Error_parsing_SSE thrown | Error_parsing_final_SSE thrown

text \<open>
  The React state of the component, the two refs, and the console. \<open>timerRunning\<close> says
  that the interval held by \<open>timerIntervalRef\<close> is active; its ticks, which only write
  \<open>elapsedTime\<close>, are not modelled.
\<close>

record state =
  isProcessing :: bool
  progress :: jsnum
  totalRows :: int
  result :: "ProcessingResult option"
  downloadUrl :: "object_url option"
  downloadFilename :: "jsstring option"
  error :: "ApiError option"
  elapsedTime :: nat
  logEntries :: "LogEntry list"
  showLog :: bool
  logIdRef :: nat
  timerRunning :: bool
  console :: "warning list"

text \<open>
  The parsed payload of a frame, through the fields that \<open>handleSSEEvent\<close> reads. The
  payloads are those of the shapes that the streaming endpoint sends, the counts and the
  row numbers being integers:
  \<^item> \<open>Start total\<close>;
  \<^item> \<open>Progress stats.procesadas total status row direccion municipio cp\<close>;
  \<^item> \<open>Row_error row error\<close>;
  \<^item> \<open>Error_event message\<close>;
  \<^item> \<open>Complete stats elapsed file filename\<close>, where \<open>file\<close> and \<open>filename\<close> may be absent;
  \<^item> \<open>Other\<close>, a value whose \<open>type\<close> is none of the five.

  Where the handler computes with a count, the count is the binary64 value that
  \<open>JSON.parse\<close> makes of it, \<open>fl\<close> of the integer.
\<close>

record stats =
  procesadas :: int
  encontradas :: int
  no_encontradas :: int
  errores_s :: int

datatype event =
    Start int
  | Progress int int jsstring int jsstring jsstring jsstring
  | Row_error int jsstring
  | Error_event jsstring
  | Complete stats jsstring "jsstring option" "jsstring option"
  | Other

subsection \<open>\<open>atob\<close>\<close>

text \<open>
  \<open>atob\<close> is the platform's forgiving base64 decoder: ASCII white space is removed, one
  or two padding signs are removed from a text whose length is a multiple of four, a
  length that leaves the remainder one or a character outside the alphabet is a failure
  (the \<open>InvalidCharacterError\<close> that \<open>atob\<close> throws), and the bits left over are dropped.
\<close>

definition ascii_whitespace :: "16 word \<Rightarrow> bool" where
  "ascii_whitespace c = (c = 0x09 \<or> c = 0x0A \<or> c = 0x0C \<or> c = 0x0D \<or> c = 0x20)"

definition base64_index :: "16 word \<Rightarrow> nat option" where
  "base64_index c =
     (if 0x41 \<le> c \<and> c \<le> 0x5A then Some (unat c - 0x41)
      else if 0x61 \<le> c \<and> c \<le> 0x7A then Some (unat c - 0x61 + 26)
      else if 0x30 \<le> c \<and> c \<le> 0x39 then Some (unat c - 0x30 + 52)
      else if c = 0x2B then Some 62
      else if c = 0x2F then Some 63
      else None)"

definition strip_padding :: "jsstring \<Rightarrow> jsstring" where
  "strip_padding s =
     (if length s mod 4 = 0 \<and> s \<noteq> [] \<and> last s = 0x3D then
        (let s1 = butlast s in if s1 \<noteq> [] \<and> last s1 = 0x3D then butlast s1 else s1)
      else s)"

fun sextets_to_bytes :: "nat list \<Rightarrow> byte list" where
  "sextets_to_bytes (a # b # c # d # rest) =
     (let n = ((a * 64 + b) * 64 + c) * 64 + d
      in of_nat (n div 65536) # of_nat (n div 256 mod 256) # of_nat (n mod 256)
         # sextets_to_bytes rest)"
| "sextets_to_bytes [a, b, c] =
     (let n = ((a * 64 + b) * 64 + c) div 4 in [of_nat (n div 256), of_nat (n mod 256)])"
| "sextets_to_bytes [a, b] = [of_nat ((a * 64 + b) div 16)]"
| "sextets_to_bytes rest = []"

definition atob :: "jsstring \<Rightarrow> byte list option" where
  "atob s =
     (let d = strip_padding (filter (\<lambda>c. \<not> ascii_whitespace c) s)
      in if length d mod 4 = 1 then None
         else map_option sextets_to_bytes (those (map base64_index d)))"

subsection \<open>\<open>addLogEntry\<close> and \<open>handleSSEEvent\<close>\<close>

definition new_entry :: "entry_type \<Rightarrow> LogEntry" where
  "new_entry t =
     \<lparr>entry_type = t, row = None, direccion = None, municipio = None,
      cp = None, message = None\<rparr>"

definition addLogEntry :: "LogEntry \<Rightarrow> state \<Rightarrow> state" where
  "addLogEntry entry st =
     st\<lparr>logIdRef := logIdRef st + 1, logEntries := logEntries st @ [entry]\<rparr>"

text \<open>
  \<open>handleSSEEvent\<close>: the state after the call and, when the call throws, what it throws;
  the updates made before the throw stay.
\<close>

fun handleSSEEvent :: "state \<Rightarrow> event \<Rightarrow> state \<times> thrown option" where
  "handleSSEEvent st (Start n) =
     (addLogEntry
        ((new_entry T_info)
           \<lparr>message := Some [Text (lit ''Archivo cargado: ''), Number n,
                              Text (lit '' filas detectadas'')]\<rparr>)
        (st\<lparr>totalRows := n\<rparr>), None)"
| "handleSSEEvent st (Progress k n outcome r d m c) =
     (addLogEntry
        ((new_entry (if outcome = lit ''found'' then T_found else T_not_found))
           \<lparr>row := Some r, direccion := Some d, municipio := Some m, cp := Some c\<rparr>)
        (st\<lparr>progress :=
              Math_round (js_mul (js_div (fl (of_int k)) (fl (of_int n))) (Num 100))\<rparr>),
      None)"
| "handleSSEEvent st (Row_error r e) =
     (addLogEntry ((new_entry T_error)\<lparr>row := Some r, message := Some [Text e]\<rparr>) st, None)"
| "handleSSEEvent st (Error_event m) =
     ((addLogEntry ((new_entry T_error)\<lparr>message := Some [Text m]\<rparr>) st)
        \<lparr>error := Some \<lparr>error_message = [Text m], error_status = None, error_details = None\<rparr>\<rparr>, None)"
| "handleSSEEvent st (Complete s elapsed file filename) =
     (let st1 = st\<lparr>progress := Num 100\<rparr>;
          st2 = st1\<lparr>result := Some \<lparr>total = procesadas s, encontrados = encontradas s,
                                      noEncontrados = no_encontradas s,
                                      errores = errores_s s\<rparr>\<rparr>;
          st3 = addLogEntry
                  ((new_entry T_complete)
                     \<lparr>message := Some [Text (lit ''Completado en '' @ elapsed)]\<rparr>) st2
      in case file of
           None \<Rightarrow> (st3, None)
         | Some f \<Rightarrow>
             if f = [] then (st3, None)
             else (case atob f of
                     None \<Rightarrow> (st3, Some InvalidCharacterError)
                   | Some bytes \<Rightarrow>
                       (st3\<lparr>downloadUrl := Some (ObjectURL bytes),
                            downloadFilename := filename\<rparr>, None)))"
| "handleSSEEvent st Other = (st, None)"

subsection \<open>\<open>processFile\<close>\<close>

text \<open>
  \<open>JSON.parse\<close> is a parameter: \<open>None\<close> is its \<open>SyntaxError\<close>. The two \<open>try\<close> blocks of
  the loop catch whatever the parse or the handler throws and warn on the console.
\<close>

definition try_frame ::
  "(thrown \<Rightarrow> warning) \<Rightarrow> (jsstring \<Rightarrow> event option) \<Rightarrow> state \<Rightarrow> jsstring \<Rightarrow> state" where
  "try_frame label JSON_parse st line =
     (case JSON_parse (slice line 6) of
        None \<Rightarrow> st\<lparr>console := console st @ [label SyntaxError]\<rparr>
      | Some data \<Rightarrow>
          (case handleSSEEvent st data of
             (st', None) \<Rightarrow> st'
           | (st', Some e) \<Rightarrow> st'\<lparr>console := console st' @ [label e]\<rparr>))"

text \<open>
  The transport. \<open>fetch\<close> rejects, or resolves to a response with its \<open>ok\<close> flag, status,
  status text and body; the body is the chunks the reader delivers and how the reading
  ends.
\<close>

record body_stream =
  chunks :: "byte list list"
  ending :: ending

datatype fetched =
    Rejected failure
  | Response bool int jsstring "body_stream option"

record File =
  name :: jsstring

text \<open>The \<open>try\<close> block of \<open>processFile\<close>: the state it reaches and what it throws, if anything.\<close>

definition try_block ::
  "(jsstring \<Rightarrow> event option) \<Rightarrow> fetched \<Rightarrow> state \<Rightarrow> state \<times> failure option" where
  "try_block JSON_parse response st =
     (case response of
        Rejected err \<Rightarrow> (st, Some err)
      | Response ok code statusText body \<Rightarrow>
          if \<not> ok then
            (st, Some (An_Error [Text (lit ''Error ''), Number code,
                                 Text (lit '': '' @ statusText)]))
          else
            (case body of
               None \<Rightarrow> (st, Some (An_Error [Text (lit ''No se pudo leer la respuesta'')]))
             | Some b \<Rightarrow>
                 read_loop (try_frame Error_parsing_SSE JSON_parse)
                   (try_frame Error_parsing_final_SSE JSON_parse)
                   new_TextDecoder [] (chunks b) (ending b) st))"

definition errorMessage :: "failure \<Rightarrow> message" where
  "errorMessage err =
     (case err of An_Error m \<Rightarrow> m | Not_an_Error \<Rightarrow> [Text (lit ''Error desconocido'')])"

text \<open>The \<open>catch\<close> block.\<close>

definition catch_block :: "failure \<Rightarrow> state \<Rightarrow> state" where
  "catch_block err st =
     (addLogEntry
        ((new_entry T_error)\<lparr>message := Some (Text (lit ''Error: '') # errorMessage err)\<rparr>) st)
       \<lparr>error := Some \<lparr>error_message = errorMessage err, error_status = None, error_details = None\<rparr>\<rparr>"

text \<open>The start of a run: the resets, the timer and the first log entry.\<close>

definition begin_run :: "File \<Rightarrow> state \<Rightarrow> state" where
  "begin_run f st =
     addLogEntry
       ((new_entry T_info)
          \<lparr>message := Some [Text (lit ''Iniciando procesamiento de '' @ name f @ lit ''...'')]\<rparr>)
       (st\<lparr>isProcessing := True, progress := Num 0, elapsedTime := 0, totalRows := 0,
           result := None, downloadUrl := None, error := None, logEntries := [],
           showLog := True, logIdRef := 0, timerRunning := True\<rparr>)"

definition processFile ::
  "(jsstring \<Rightarrow> event option) \<Rightarrow> File option \<Rightarrow> ApiStatus \<Rightarrow> fetched \<Rightarrow> state \<Rightarrow> state" where
  "processFile JSON_parse file apiStatus response st =
     (case file of
        None \<Rightarrow> st
      | Some f \<Rightarrow>
          if apiStatus \<noteq> Online then st
          else
            (let (st', thrown) = try_block JSON_parse response (begin_run f st);
                 st'' = (case thrown of None \<Rightarrow> st' | Some err \<Rightarrow> catch_block err st')
             in st''\<lparr>timerRunning := False, isProcessing := False\<rparr>))"

text \<open>The state of the component when it is mounted: the initial values of its hooks.\<close>

definition initial_state :: state where
  "initial_state =
     \<lparr>isProcessing = False, progress = Num 0, totalRows = 0, result = None,
      downloadUrl = None, downloadFilename = Some (lit ''resultado.xlsx''), error = None,
      elapsedTime = 0, logEntries = [], showLog = False, logIdRef = 0,
      timerRunning = False, console = []\<rparr>"

section \<open>The one-shot component\<close>

text \<open>
  The second component posts the file to the one-shot endpoint and, while it waits,
  moves the progress bar by itself every 500 ms.
\<close>

subsection \<open>The progress simulation\<close>

text \<open>
  The updater that the interval passes to \<open>setProgress\<close>: \<open>prev\<close> is the current
  progress and \<open>r\<close> is the value of \<open>Math.random()\<close>, a binary64 value from 0 up to but not
  including 1. The literals 8, 5, 2, 0.5 and the bounds are binary64 values as they
  stand; the literal 0.1 denotes the binary64 value nearest to one tenth.
\<close>

definition tick :: "jsnum \<Rightarrow> rat \<Rightarrow> jsnum" where
  "tick prev r =
     (let currentProgress =
        (if js_less prev (Num 30) then js_add prev (js_mul (Num r) (Num 8))
         else if js_less prev (Num 60) then js_add prev (js_mul (Num r) (Num 5))
         else if js_less prev (Num 85) then js_add prev (js_mul (Num r) (Num 2))
         else if js_less prev (Num 95) then js_add prev (js_mul (Num r) (Num (1 / 2)))
         else Math_min (Num 99) (js_add prev (js_mul (Num r) (fl (1 / 10)))))
      in Math_min (Num 99) currentProgress)"

text \<open>The successive values of the progress over a run of ticks, one draw for each tick.\<close>

fun ticks :: "jsnum \<Rightarrow> rat list \<Rightarrow> jsnum list" where
  "ticks prev [] = []"
| "ticks prev (r # rs) = tick prev r # ticks (tick prev r) rs"

text \<open>
  The step table of the specification: the width of the band that a current value
  belongs to.
\<close>

definition band :: "rat \<Rightarrow> rat" where
  "band p =
     (if p < 30 then 8 else if p < 60 then 5 else if p < 85 then 2
      else if p < 95 then 1 / 2 else 1 / 10)"

subsection \<open>The summary of a successful response\<close>

text \<open>
  A value of the language, as \<open>JSON.parse\<close> builds it or as a property read yields it.
  An object is the list of its own properties.
\<close>

datatype jsvalue =
    Undefined
  | Null
  | Boolean bool
  | Numeric jsnum
  | String jsstring
  | Array "jsvalue list"
  | Object "(jsstring \<times> jsvalue) list"

text \<open>
  Reading a property: a \<open>TypeError\<close> (here \<open>None\<close>) on \<open>null\<close> and \<open>undefined\<close>, the own
  property of an object, and \<open>undefined\<close> where there is none. None of the names that
  the component reads is inherited from a prototype.
\<close>

fun get_property :: "jsvalue \<Rightarrow> jsstring \<Rightarrow> jsvalue option" where
  "get_property Undefined k = None"
| "get_property Null k = None"
| "get_property (Object ps) k = Some (case map_of ps k of None \<Rightarrow> Undefined | Some v \<Rightarrow> v)"
| "get_property v k = Some Undefined"

text \<open>\<open>v ?? d\<close>.\<close>

definition nullish :: "jsvalue \<Rightarrow> jsvalue \<Rightarrow> jsvalue" where
  "nullish v d = (if v = Undefined \<or> v = Null then d else v)"

record summary =
  total_f :: jsvalue
  encontrados_f :: jsvalue
  noEncontrados_f :: jsvalue
  errores_f :: jsvalue

datatype console_entry = Stats_from_API jsvalue | Could_not_parse_stats_header jsstring

record fallback_state =
  isProcessing_f :: bool
  progress_f :: jsnum
  progressText :: message
  result_f :: "summary option"
  downloadUrl_f :: "object_url option"
  elapsedTime_f :: nat
  progressTimerRunning :: bool
  timerRunning_f :: bool
  console_f :: "console_entry list"

text \<open>
  The \<open>try\<close> block that reads the statistics: \<open>None\<close> when the parse or a property read
  throws, and then \<open>stats\<close> keeps its \<open>null\<close>.
\<close>

definition read_stats :: "jsvalue \<Rightarrow> summary option" where
  "read_stats rawStats =
     (case get_property rawStats (lit ''procesadas'') of None \<Rightarrow> None | Some a \<Rightarrow>
      case get_property rawStats (lit ''encontradas'') of None \<Rightarrow> None | Some b \<Rightarrow>
      case get_property rawStats (lit ''no_encontradas'') of None \<Rightarrow> None | Some c \<Rightarrow>
      case get_property rawStats (lit ''errores'') of None \<Rightarrow> None | Some d \<Rightarrow>
        Some \<lparr>total_f = nullish a (Numeric (Num 0)), encontrados_f = nullish b (Numeric (Num 0)),
              noEncontrados_f = nullish c (Numeric (Num 0)),
              errores_f = nullish d (Numeric (Num 0))\<rparr>)"

definition stats_from_header ::
  "(jsstring \<Rightarrow> jsvalue option) \<Rightarrow> jsstring option \<Rightarrow> summary option \<times> console_entry list" where
  "stats_from_header JSON_parse statsHeader =
     (case statsHeader of
        None \<Rightarrow> (None, [])
      | Some h \<Rightarrow>
          if h = [] then (None, [])
          else (case JSON_parse h of
                  None \<Rightarrow> (None, [Could_not_parse_stats_header h])
                | Some rawStats \<Rightarrow>
                    (case read_stats rawStats of
                       None \<Rightarrow> (None, [Stats_from_API rawStats, Could_not_parse_stats_header h])
                     | Some stats \<Rightarrow> (Some stats, [Stats_from_API rawStats]))))"

definition formatTime :: "nat \<Rightarrow> message" where
  "formatTime seconds =
     (let mins = seconds div 60; secs = seconds mod 60
      in if 0 < mins then [Number (int mins), Text (lit ''m ''), Number (int secs), Text (lit ''s'')]
         else [Number (int secs), Text (lit ''s'')])"

text \<open>
  What follows the \<open>fetch\<close> when the response is \<open>ok\<close> and its body has been read as a
  blob: the two intervals are cleared, the download is installed, and the summary is
  the one of the header or the zero summary. \<open>seconds\<close> is the time elapsed since the
  start, in whole seconds.
\<close>

definition response_ok ::
  "(jsstring \<Rightarrow> jsvalue option) \<Rightarrow> byte list \<Rightarrow> jsstring option \<Rightarrow> jsstring option \<Rightarrow> nat \<Rightarrow>
   fallback_state \<Rightarrow> fallback_state" where
  "response_ok JSON_parse blob statsHeader timeHeader seconds st =
     (let st1 = st\<lparr>progressTimerRunning := False, timerRunning_f := False\<rparr>;
          st2 = st1\<lparr>downloadUrl_f := Some (ObjectURL blob)\<rparr>;
          (stats, out) = stats_from_header JSON_parse statsHeader;
          st3 = st2\<lparr>console_f := console_f st2 @ out, progress_f := Num 100\<rparr>;
          timeText = (case timeHeader of
                        None \<Rightarrow> formatTime seconds
                      | Some t \<Rightarrow> if t = [] then formatTime seconds else [Text t]);
          st4 = st3\<lparr>progressText := Text (lit ''Completado en '') # timeText\<rparr>
      in case stats of
           Some s \<Rightarrow> st4\<lparr>result_f := Some s\<rparr>
         | None \<Rightarrow> st4\<lparr>result_f := Some \<lparr>total_f = Numeric (Num 0), encontrados_f = Numeric (Num 0),
                                           noEncontrados_f = Numeric (Num 0),
                                           errores_f = Numeric (Num 0)\<rparr>\<rparr>)"


text \<open>The state of the one-shot component when it is mounted.\<close>

definition initial_fallback_state :: fallback_state where
  "initial_fallback_state =
     \<lparr>isProcessing_f = False, progress_f = Num 0, progressText = [], result_f = None,
      downloadUrl_f = None, elapsedTime_f = 0, progressTimerRunning = False,
      timerRunning_f = False, console_f = []\<rparr>"

text \<open>
  The summary that the specification describes: every count zero, and a field of the
  parsed header with zero standing for a field that is missing or \<open>null\<close>.
\<close>

definition zero_summary :: summary where
  "zero_summary =
     \<lparr>total_f = Numeric (Num 0), encontrados_f = Numeric (Num 0),
      noEncontrados_f = Numeric (Num 0), errores_f = Numeric (Num 0)\<rparr>"

definition field_or_zero :: "(jsstring \<times> jsvalue) list \<Rightarrow> jsstring \<Rightarrow> jsvalue" where
  "field_or_zero ps k =
     (case map_of ps k of
        None \<Rightarrow> Numeric (Num 0)
      | Some v \<Rightarrow> if v = Null \<or> v = Undefined then Numeric (Num 0) else v)"

section \<open>Reading the whole stream at once\<close>

text \<open>
  The text that the decoder produces for a sequence of bytes given to it in one piece,
  and what the loop does when it sees that text in one piece: the handler on each
  complete line that starts with the prefix, then, at the end of the stream, the final
  handler on the unterminated rest when it starts with the prefix.
\<close>

definition decoded_text :: "byte list \<Rightarrow> jsstring" where
  "decoded_text bytes = snd (decode new_TextDecoder bytes)"

definition whole_stream ::
  "('s \<Rightarrow> jsstring \<Rightarrow> 's) \<Rightarrow> ('s \<Rightarrow> jsstring \<Rightarrow> 's) \<Rightarrow> jsstring \<Rightarrow> ending \<Rightarrow> 's \<Rightarrow>
   's \<times> failure option" where
  "whole_stream on_frame on_final text e st =
     (let lines = split_nl text; st' = for_lines on_frame st (butlast lines)
      in case e of
           EndOfStream \<Rightarrow>
             (if startsWith (last lines) data_prefix then on_final st' (last lines) else st',
              None)
         | ReadFailure err \<Rightarrow> (st', Some err))"


section \<open>Properties of the frame decoding\<close>

lemma split_nl_nonempty: "split_nl s \<noteq> []"
  by (induction s) (auto simp: Let_def)

lemma split_nl_append:
  "split_nl (a @ b) = butlast (split_nl a) @ split_nl (last (split_nl a) @ b)"
proof (induction a)
  case Nil
  show ?case by simp
next
  case (Cons c a)
  obtain l ls where r: "split_nl a = l # ls"
    using split_nl_nonempty [of a] by (cases "split_nl a") auto
  show ?case
  proof (cases ls)
    case Nil
    with r Cons show ?thesis by (simp add: Let_def split_nl_nonempty)
  next
    case (Cons l' ls')
    with r Cons.IH show ?thesis by (simp add: Let_def split_nl_nonempty)
  qed
qed

lemma split_nl_without_nl: "0x0A \<notin> set s \<Longrightarrow> split_nl s = [s]"
  by (induction s) (auto simp: Let_def)

lemma last_split_nl_without_nl: "0x0A \<notin> set (last (split_nl s))"
proof (induction s)
  case Nil
  show ?case by simp
next
  case (Cons c s)
  obtain l ls where r: "split_nl s = l # ls"
    using split_nl_nonempty [of s] by (cases "split_nl s") auto
  with Cons show ?case by (cases ls) (auto simp: Let_def)
qed

lemma pop_or_empty_last: "pop_or_empty lines = last lines"
  by (simp add: pop_or_empty_def Let_def)

lemma for_lines_append:
  "for_lines f st (xs @ ys) = for_lines f (for_lines f st xs) ys"
  by (simp add: for_lines_def)

lemma decode_append:
  "decode d (a @ b) = (let (d1, s1) = decode d a; (d2, s2) = decode d1 b in (d2, s1 @ s2))"
  by (induction a arbitrary: d) (auto simp: Let_def split: prod.splits)

text \<open>
  The loop, started with a pending buffer that holds no line feed, does what reading the
  pending buffer followed by the text of all the chunks in one piece does.
\<close>

lemma read_loop_whole_stream:
  "0x0A \<notin> set buffer \<Longrightarrow>
   read_loop on_frame on_final dec buffer cs e st =
     whole_stream on_frame on_final (buffer @ snd (decode dec (concat cs))) e st"
proof (induction cs arbitrary: dec buffer st)
  case Nil
  then show ?case
    by (cases e)
      (simp_all add: whole_stream_def pop_or_empty_last split_nl_without_nl for_lines_def Let_def)
next
  case (Cons v rest)
  obtain d1 t1 where v: "decode dec v = (d1, t1)"
    by (cases "decode dec v")
  obtain d2 t2 where r: "decode d1 (concat rest) = (d2, t2)"
    by (cases "decode d1 (concat rest)")
  let ?b = "last (split_nl (buffer @ t1))"
  let ?st = "for_lines on_frame st (butlast (split_nl (buffer @ t1)))"
  have whole: "snd (decode dec (concat (v # rest))) = t1 @ t2"
    by (simp add: decode_append v r)
  have sp: "split_nl (buffer @ t1 @ t2) = butlast (split_nl (buffer @ t1)) @ split_nl (?b @ t2)"
    using split_nl_append [of "buffer @ t1" t2] by simp
  have "read_loop on_frame on_final dec buffer (v # rest) e st =
        read_loop on_frame on_final d1 ?b rest e ?st"
    by (simp add: v pop_or_empty_last Let_def)
  also have "\<dots> = whole_stream on_frame on_final (?b @ snd (decode d1 (concat rest))) e ?st"
    by (rule Cons.IH) (rule last_split_nl_without_nl)
  also have "\<dots> = whole_stream on_frame on_final (buffer @ t1 @ t2) e st"
    by (cases e)
      (simp_all add: whole_stream_def r sp Let_def butlast_append split_nl_nonempty
         for_lines_append)
  finally show ?case by (simp only: whole)
qed

lemma read_loop_decoded_text:
  "read_loop on_frame on_final new_TextDecoder [] cs e st =
     whole_stream on_frame on_final (decoded_text (concat cs)) e st"
  using read_loop_whole_stream [of "[]" on_frame on_final new_TextDecoder cs e st]
  by (simp add: decoded_text_def)

lemma for_lines_collect:
  "for_lines (\<lambda>acc line. acc @ [line]) acc ls =
     acc @ filter (\<lambda>l. startsWith l data_prefix) ls"
  by (induction ls arbitrary: acc) (simp_all add: for_lines_def)

lemma frames_filter_lines:
  "frames cs = filter (\<lambda>l. startsWith l data_prefix) (split_nl (decoded_text (concat cs)))"
proof -
  let ?lines = "split_nl (decoded_text (concat cs))"
  have "frames cs =
        filter (\<lambda>l. startsWith l data_prefix) (butlast ?lines) @
        filter (\<lambda>l. startsWith l data_prefix) [last ?lines]"
    by (simp add: frames_def read_loop_decoded_text whole_stream_def for_lines_collect Let_def)
  also have "\<dots> = filter (\<lambda>l. startsWith l data_prefix) (butlast ?lines @ [last ?lines])"
    by (simp only: filter_append)
  finally show ?thesis
    by (simp add: split_nl_nonempty)
qed

text \<open>
  Claim C1. Whatever the partition of the bytes of a stream into chunks (chunks of one
  byte, empty chunks, a cut inside the prefix, inside a character of several bytes or at
  a line feed), the loop followed by the end of the stream emits the same frames, in the
  same order, as when the stream arrives as a single chunk; and so, whatever the two
  handlers and the state they work on, the loop reaches the same state, also when the
  reading ends with a failure.
\<close>

theorem chunk_boundary_invariance:
  "frames cs = frames [concat cs] \<and>
   read_loop on_frame on_final new_TextDecoder [] cs e st =
     read_loop on_frame on_final new_TextDecoder [] [concat cs] e st"
  by (simp only: frames_filter_lines read_loop_decoded_text concat.simps append_Nil2)

text \<open>
  Claim C5. The frames emitted are the lines of the decoded text that start with the
  prefix, each one once and in the order of the text: the complete lines first, and
  then the unterminated rest of the text, emitted when it starts with the prefix and
  dropped when it does not.
\<close>

theorem frames_exactly_once:
  "frames cs = filter (\<lambda>l. startsWith l data_prefix) (split_nl (decoded_text (concat cs))) \<and>
   frames cs =
     filter (\<lambda>l. startsWith l data_prefix) (butlast (split_nl (decoded_text (concat cs)))) @
     (if startsWith (last (split_nl (decoded_text (concat cs)))) data_prefix
      then [last (split_nl (decoded_text (concat cs)))] else [])"
proof -
  let ?lines = "split_nl (decoded_text (concat cs))"
  have "?lines = butlast ?lines @ [last ?lines]"
    by (simp add: split_nl_nonempty)
  then have "filter (\<lambda>l. startsWith l data_prefix) ?lines =
        filter (\<lambda>l. startsWith l data_prefix) (butlast ?lines) @
        filter (\<lambda>l. startsWith l data_prefix) [last ?lines]"
    by (metis filter_append)
  then show ?thesis
    by (simp add: frames_filter_lines)
qed


section \<open>Properties of the rounding\<close>

text \<open>
  The rounding is monotone and idempotent, it is exact on the multiples of the unit in
  the last place, and on numbers that are not subnormal its relative error is at most
  \<open>2\<^sup>-\<^sup>5\<^sup>3\<close>.
\<close>

lemma pow2_plus1: "(2::rat) powi (e + 1) = 2 * 2 powi e"
  by (simp add: power_int_add)

lemma pow2_minus1: "(2::rat) powi (e - 1) = 2 powi e / 2"
  by (simp add: power_int_diff)

lemma pow2_pos [simp]: "0 < (2::rat) powi e"
  by simp

lemma binade_bounds:
  "0 < x \<Longrightarrow> 2 powi binade x \<le> x \<and> x < 2 powi (binade x + 1)"
proof (induction x rule: binade.induct)
  case (1 x)
  show ?case
  proof (cases "2 \<le> x")
    case True
    then have b: "binade x = binade (x / 2) + 1"
      using "1.prems" by (subst binade.simps) simp
    have ih: "2 powi binade (x / 2) \<le> x / 2" "x / 2 < 2 powi (binade (x / 2) + 1)"
      using "1.IH"(1) True "1.prems" by simp_all
    have "2 powi (binade (x / 2) + 1) \<le> x"
      using ih(1) by (simp add: pow2_plus1)
    moreover have "x < 2 powi (binade (x / 2) + 1 + 1)"
      using ih(2) by (subst pow2_plus1) simp
    ultimately show ?thesis
      by (simp only: b) 
  next
    case False
    show ?thesis
    proof (cases "x < 1")
      case True
      then have b: "binade x = binade (x * 2) - 1"
        using "1.prems" False by (subst binade.simps) simp
      have ih: "2 powi binade (x * 2) \<le> x * 2" "x * 2 < 2 powi (binade (x * 2) + 1)"
        using "1.IH"(2) True False "1.prems" by simp_all
      have "2 powi (binade (x * 2) - 1) \<le> x"
        using ih(1) by (simp add: pow2_minus1)
      moreover have "x < 2 powi (binade (x * 2) - 1 + 1)"
        using ih(2) by (simp add: pow2_plus1)
      ultimately show ?thesis
        by (simp only: b)
    next
      case ge: False
      then have "binade x = 0"
        using "1.prems" False by (subst binade.simps) simp
      then show ?thesis using ge False by simp
    qed
  qed
qed

lemma binade_unique:
  assumes "0 < x" "2 powi e \<le> x" "x < 2 powi (e + 1)"
  shows "binade x = e"
proof -
  from binade_bounds [OF assms(1)]
  have b: "2 powi binade x \<le> x" "x < 2 powi (binade x + 1)" by simp_all
  have "(2::rat) powi e < 2 powi (binade x + 1)" using assms(2) b(2) by simp
  then have "e < binade x + 1"
    by (metis power_int_increasing not_le one_le_numeral)
  moreover have "(2::rat) powi binade x < 2 powi (e + 1)" using assms(3) b(1) by simp
  then have "binade x < e + 1"
    by (metis power_int_increasing not_le one_le_numeral)
  ultimately show ?thesis by simp
qed


lemma rne_spec:
  "\<bar>of_int (rne a) - a\<bar> < 1 / 2 \<or> (\<bar>of_int (rne a) - a\<bar> = 1 / 2 \<and> even (rne a))"
proof -
  let ?f = "\<lfloor>a\<rfloor>"
  let ?d = "a - of_int ?f"
  have d: "0 \<le> ?d" "?d < 1" by linarith+
  consider "?d < 1 / 2" | "1 / 2 < ?d" | "?d = 1 / 2" by linarith
  then show ?thesis
  proof cases
    case 1
    then have "rne a = ?f" by (simp add: rne_def Let_def)
    then show ?thesis using 1 d by simp
  next
    case 2
    then have "rne a = ?f + 1" by (simp add: rne_def Let_def)
    then show ?thesis using 2 d by simp
  next
    case 3
    show ?thesis
    proof (cases "even ?f")
      case True
      then have "rne a = ?f" using 3 by (simp add: rne_def Let_def)
      then show ?thesis using 3 True by simp
    next
      case False
      then have "rne a = ?f + 1" using 3 by (simp add: rne_def Let_def)
      then show ?thesis using 3 False by simp
    qed
  qed
qed

lemma rne_error: "\<bar>of_int (rne a) - a\<bar> \<le> 1 / 2"
  using rne_spec [of a] by linarith

lemma rne_unique:
  assumes "\<bar>of_int r - a\<bar> < 1 / 2 \<or> (\<bar>of_int r - a\<bar> = 1 / 2 \<and> even r)"
  shows "rne a = r"
proof (rule ccontr)
  assume ne: "rne a \<noteq> r"
  let ?s = "rne a"
  have s: "\<bar>of_int ?s - a\<bar> < 1 / 2 \<or> (\<bar>of_int ?s - a\<bar> = 1 / 2 \<and> even ?s)"
    by (rule rne_spec)
  have "\<bar>(of_int ?s :: rat) - of_int r\<bar> \<le> \<bar>of_int ?s - a\<bar> + \<bar>of_int r - a\<bar>" by linarith
  moreover have "1 \<le> \<bar>?s - r\<bar>" using ne by linarith
  then have "(1::rat) \<le> \<bar>of_int ?s - of_int r\<bar>"
    by (metis of_int_1 of_int_abs of_int_diff of_int_le_iff)
  ultimately have eq: "\<bar>of_int ?s - a\<bar> = 1 / 2" "\<bar>of_int r - a\<bar> = 1 / 2"
    using s assms by linarith+
  then have ev: "even ?s" "even r" using s assms by auto
  have "\<bar>(of_int ?s :: rat) - of_int r\<bar> \<le> 1" using eq by linarith
  then have "\<bar>?s - r\<bar> \<le> 1"
    by (metis of_int_1 of_int_abs of_int_diff of_int_le_iff)
  with ne have "\<bar>?s - r\<bar> = 1" by linarith
  with ev show False by presburger
qed

lemma rne_of_int [simp]: "rne (of_int k) = k"
  by (rule rne_unique) simp

lemma rne_0 [simp]: "rne 0 = 0"
  using rne_of_int [of 0] by simp

lemma rne_minus: "rne (- a) = - rne a"
proof (rule rne_unique)
  have "\<bar>of_int (- rne a) - (- a)\<bar> = \<bar>of_int (rne a) - a\<bar>" by simp
  then show "\<bar>of_int (- rne a) - - a\<bar> < 1 / 2 \<or>
      (\<bar>of_int (- rne a) - - a\<bar> = 1 / 2 \<and> even (- rne a))"
    using rne_spec [of a] by simp
qed

lemma rne_mono: "a \<le> b \<Longrightarrow> rne a \<le> rne b"
proof (rule ccontr)
  assume ab: "a \<le> b" and "\<not> rne a \<le> rne b"
  then have "rne b + 1 \<le> rne a" by simp
  then have "(of_int (rne b) :: rat) + 1 \<le> of_int (rne a)"
    by (metis of_int_1 of_int_add of_int_le_iff)
  moreover have "of_int (rne a) \<le> a + 1 / 2" "b - 1 / 2 \<le> of_int (rne b)"
    using rne_error [of a] rne_error [of b] by linarith+
  ultimately have "a = b" using ab by linarith
  with \<open>\<not> rne a \<le> rne b\<close> show False by simp
qed

lemma rne_ge: "of_int k \<le> a \<Longrightarrow> k \<le> rne a"
  using rne_mono [of "of_int k" a] by simp

lemma rne_le: "a \<le> of_int k \<Longrightarrow> rne a \<le> k"
  using rne_mono [of a "of_int k"] by simp


lemma ulp_exponent_minus [simp]: "ulp_exponent (- x) = ulp_exponent x"
  by (simp add: ulp_exponent_def)

lemma round64_minus: "round64 (- x) = - round64 x"
  by (simp add: round64_def rne_minus)

lemma round64_0 [simp]: "round64 0 = 0"
  by (simp add: round64_def)

lemma round64_nonneg: "0 \<le> x \<Longrightarrow> 0 \<le> round64 x"
proof -
  assume "0 \<le> x"
  then have "(of_int 0 :: rat) \<le> x / 2 powi ulp_exponent x" by simp
  then have "0 \<le> rne (x / 2 powi ulp_exponent x)" by (rule rne_ge)
  then show ?thesis by (simp add: round64_def)
qed

lemma binade_mono: "0 < x \<Longrightarrow> x \<le> y \<Longrightarrow> binade x \<le> binade y"
proof -
  assume x: "0 < x" and xy: "x \<le> y"
  then have y: "0 < y" by simp
  from binade_bounds [OF x] binade_bounds [OF y] xy
  have "(2::rat) powi binade x < 2 powi (binade y + 1)" by linarith
  then have "binade x < binade y + 1"
    by (metis power_int_increasing not_le one_le_numeral)
  then show ?thesis by simp
qed

lemma pow2_of_int: "0 \<le> n \<Longrightarrow> (2::rat) powi n = of_int (2 ^ nat n)"
  by (simp add: power_int_def)

lemma pow2_mult_diff: "(2::rat) powi a / 2 powi b = 2 powi (a - b)"
  by (simp add: power_int_diff)

text \<open>The rounded value stays within the binade, its upper end included.\<close>

lemma pow2_split52: "(2::rat) powi e = of_int (2 ^ 52) * 2 powi (e - 52)"
proof -
  have "(2::rat) powi (52 + (e - 52)) = 2 powi 52 * 2 powi (e - 52)"
    by (rule power_int_add) simp
  moreover have "52 + (e - 52) = e" by simp
  ultimately show ?thesis by simp
qed

lemma pow2_split53: "(2::rat) powi (e + 1) = of_int (2 ^ 53) * 2 powi (e - 52)"
proof -
  have "(2::rat) powi (53 + (e - 52)) = 2 powi 53 * 2 powi (e - 52)"
    by (rule power_int_add) simp
  moreover have "53 + (e - 52) = e + 1" by simp
  ultimately show ?thesis by simp
qed

lemma round64_upper:
  assumes "0 < x" "x \<le> 2 powi (e + 1)" "ulp_exponent x = e - 52"
  shows "round64 x \<le> 2 powi (e + 1)"
proof -
  have split: "(2::rat) powi (e + 1) = of_int (2 ^ 53) * 2 powi (e - 52)"
    by (rule pow2_split53)
  have "x / 2 powi (e - 52) \<le> 2 powi (e + 1) / 2 powi (e - 52)"
    using assms(2) by (simp add: divide_right_mono)
  also have "\<dots> = of_int (2 ^ 53)" by (simp add: split)
  finally have "rne (x / 2 powi (e - 52)) \<le> 2 ^ 53" by (rule rne_le)
  then have "(of_int (rne (x / 2 powi (e - 52))) :: rat) \<le> of_int (2 ^ 53)"
    by (simp only: of_int_le_iff)
  then have "of_int (rne (x / 2 powi (e - 52))) * 2 powi (e - 52)
             \<le> (of_int (2 ^ 53) :: rat) * 2 powi (e - 52)"
    by (intro mult_right_mono) simp_all
  then show ?thesis by (simp only: round64_def assms(3) split)
qed

lemma round64_lower:
  assumes "2 powi e \<le> x" "ulp_exponent x = e - 52"
  shows "2 powi e \<le> round64 x"
proof -
  have split: "(2::rat) powi e = of_int (2 ^ 52) * 2 powi (e - 52)"
    by (rule pow2_split52)
  have "2 powi e / 2 powi (e - 52) \<le> x / 2 powi (e - 52)"
    using assms(1) by (simp add: divide_right_mono)
  moreover have "2 powi e / 2 powi (e - 52) = (of_int (2 ^ 52) :: rat)"
    by (simp add: split)
  ultimately have "of_int (2 ^ 52) \<le> x / 2 powi (e - 52)" by simp
  then have "2 ^ 52 \<le> rne (x / 2 powi (e - 52))" by (rule rne_ge)
  then have "(of_int (2 ^ 52) :: rat) \<le> of_int (rne (x / 2 powi (e - 52)))"
    by (simp only: of_int_le_iff)
  then have "(of_int (2 ^ 52) :: rat) * 2 powi (e - 52)
             \<le> of_int (rne (x / 2 powi (e - 52))) * 2 powi (e - 52)"
    by (intro mult_right_mono) simp_all
  then show ?thesis by (simp only: round64_def assms(2) split)
qed

lemma round64_mono_pos:
  assumes "0 < x" "x \<le> y"
  shows "round64 x \<le> round64 y"
proof -
  have y: "0 < y" using assms by simp
  let ?ex = "max (binade x) (- 1022)"
  let ?ey = "max (binade y) (- 1022)"
  have ux: "ulp_exponent x = ?ex - 52" using assms by (simp add: ulp_exponent_def)
  have uy: "ulp_exponent y = ?ey - 52" using y by (simp add: ulp_exponent_def)
  have le: "?ex \<le> ?ey" using binade_mono [OF assms] by simp
  show ?thesis
  proof (cases "?ex = ?ey")
    case True
    then have "ulp_exponent x = ulp_exponent y" using ux uy by simp
    moreover have "x / 2 powi ulp_exponent y \<le> y / 2 powi ulp_exponent y"
      using assms(2) by (simp add: divide_right_mono)
    ultimately show ?thesis
      by (simp add: round64_def rne_mono mult_right_mono)
  next
    case False
    with le have lt: "?ex < ?ey" by arith
    then have ey: "?ey = binade y" by arith
    have "x < 2 powi (binade x + 1)" using binade_bounds [OF assms(1)] by simp
    also have "\<dots> \<le> 2 powi (?ex + 1)"
      by (rule power_int_increasing) simp_all
    finally have "round64 x \<le> 2 powi (?ex + 1)"
      using round64_upper [OF assms(1) _ ux] by simp
    also have "\<dots> \<le> 2 powi ?ey"
    proof (rule power_int_increasing)
      show "?ex + 1 \<le> ?ey" using lt by arith
    qed simp
    also have "\<dots> \<le> round64 y"
      using binade_bounds [OF y] uy ey by (intro round64_lower) simp_all
    finally show ?thesis .
  qed
qed

lemma round64_mono: "x \<le> y \<Longrightarrow> round64 x \<le> round64 y"
proof -
  assume xy: "x \<le> y"
  consider "0 < x" | "x \<le> 0" "0 \<le> y" | "y < 0" by linarith
  then show ?thesis
  proof cases
    case 1
    then show ?thesis using xy by (rule round64_mono_pos)
  next
    case 2
    have "round64 x = - round64 (- x)" by (simp add: round64_minus)
    moreover have "0 \<le> round64 (- x)" using 2 by (intro round64_nonneg) simp
    moreover have "0 \<le> round64 y" using 2 by (intro round64_nonneg)
    ultimately show ?thesis by linarith
  next
    case 3
    then have "round64 (- y) \<le> round64 (- x)"
      using xy by (intro round64_mono_pos) simp_all
    then show ?thesis by (simp add: round64_minus)
  qed
qed


lemma binade_less: "0 < x \<Longrightarrow> x < 2 powi e \<Longrightarrow> binade x < e"
proof -
  assume x: "0 < x" and "x < 2 powi e"
  with binade_bounds [OF x] have "(2::rat) powi binade x < 2 powi e" by linarith
  then show ?thesis
    by (metis power_int_increasing not_le one_le_numeral)
qed


lemma round64_grid:
  assumes "x = of_int m * 2 powi u" "ulp_exponent x \<le> u"
  shows "round64 x = x"
proof -
  let ?v = "ulp_exponent x"
  have "(2::rat) powi (u - ?v) = of_int (2 ^ nat (u - ?v))"
    using assms(2) by (simp add: pow2_of_int)
  moreover have "x / 2 powi ?v = of_int m * 2 powi (u - ?v)"
    by (simp add: assms(1) power_int_diff)
  ultimately have "x / 2 powi ?v = of_int (m * 2 ^ nat (u - ?v))" by simp
  then have "rne (x / 2 powi ?v) = m * 2 ^ nat (u - ?v)"
    by (simp only: rne_of_int)
  then have "round64 x = of_int (m * 2 ^ nat (u - ?v)) * 2 powi ?v"
    by (simp only: round64_def)
  also have "\<dots> = x / 2 powi ?v * 2 powi ?v"
    using \<open>x / 2 powi ?v = of_int (m * 2 ^ nat (u - ?v))\<close> by simp
  also have "\<dots> = x" by simp
  finally show ?thesis .
qed

lemma round64_dyadic:
  assumes "x = of_int m * 2 powi u" "\<bar>m\<bar> < 2 ^ 53" "- 1074 \<le> u"
  shows "round64 x = x"
proof (cases "m = 0")
  case True
  then show ?thesis by (simp add: assms(1))
next
  case False
  then have pos: "0 < \<bar>x\<bar>" by (simp add: assms(1))
  have "\<bar>x\<bar> = of_int \<bar>m\<bar> * 2 powi u" by (simp add: assms(1) abs_mult)
  also have "\<dots> < of_int (2 ^ 53) * 2 powi u"
    using assms(2) by (intro mult_strict_right_mono) (simp_all only: of_int_less_iff pow2_pos)
  also have "\<dots> = 2 powi (53 + u)"
    by (subst power_int_add) simp_all
  finally have "binade \<bar>x\<bar> < 53 + u" using pos by (intro binade_less)
  then have "ulp_exponent x \<le> u" using assms(3) by (simp add: ulp_exponent_def)
  with assms(1) show ?thesis by (rule round64_grid)
qed

lemma round64_of_int: "\<bar>k\<bar> < 2 ^ 53 \<Longrightarrow> round64 (of_int k) = of_int k"
  using round64_dyadic [of "of_int k" k 0] by simp

lemma round64_idem: "round64 (round64 x) = round64 x"
proof -
  have pos: "round64 (round64 x) = round64 x" if x: "0 < x" for x
  proof -
    let ?E = "max (binade x) (- 1022)"
    let ?y = "round64 x"
    have ux: "ulp_exponent x = ?E - 52" using x by (simp add: ulp_exponent_def)
    have "x < 2 powi (binade x + 1)" using binade_bounds [OF x] by simp
    also have "\<dots> \<le> 2 powi (?E + 1)" by (rule power_int_increasing) simp_all
    finally have up: "?y \<le> 2 powi (?E + 1)"
      using round64_upper [OF x _ ux] by simp
    have y0: "0 \<le> ?y" using x by (intro round64_nonneg) simp
    have form: "?y = of_int (rne (x / 2 powi (?E - 52))) * 2 powi (?E - 52)"
      by (simp add: round64_def ux)
    consider "?y = 0" | "0 < ?y" "?y < 2 powi (?E + 1)" | "?y = 2 powi (?E + 1)"
      using up y0 by linarith
    then show ?thesis
    proof cases
      case 1
      then show ?thesis by simp
    next
      case 2
      then have "binade \<bar>?y\<bar> < ?E + 1" by (intro binade_less) simp_all
      then have "ulp_exponent ?y \<le> ?E - 52" by (simp add: ulp_exponent_def)
      with form show ?thesis by (rule round64_grid)
    next
      case 3
      have f: "?y = of_int (2 ^ 52) * 2 powi (?E + 1 - 52)"
        unfolding 3 by (rule pow2_split52)
      have "binade \<bar>?y\<bar> = ?E + 1"
      proof (rule binade_unique)
        show "0 < \<bar>?y\<bar>" unfolding 3 by simp
        show "2 powi (?E + 1) \<le> \<bar>?y\<bar>" unfolding 3 by simp
        have "(2::rat) powi (?E + 1) < 2 * 2 powi (?E + 1)" by simp
        then show "\<bar>?y\<bar> < 2 powi (?E + 1 + 1)"
          unfolding 3 by (subst pow2_plus1 [of "?E + 1"]) simp
      qed
      then have "ulp_exponent ?y \<le> ?E + 1 - 52" by (simp add: ulp_exponent_def)
      with f show ?thesis by (rule round64_grid)
    qed
  qed
  consider "0 < x" | "x = 0" | "x < 0" by linarith
  then show ?thesis
  proof cases
    case 1
    then show ?thesis by (rule pos)
  next
    case 2
    then show ?thesis by simp
  next
    case 3
    then have "round64 (round64 (- x)) = round64 (- x)" by (intro pos) simp
    then show ?thesis by (simp add: round64_minus)
  qed
qed

lemma round64_eval:
  assumes "0 < x" "2 powi e \<le> x" "x < 2 powi (e + 1)" "- 1022 \<le> e"
    "\<bar>of_int r - x / 2 powi (e - 52)\<bar> < 1 / 2"
  shows "round64 x = of_int r * 2 powi (e - 52)"
proof -
  have "binade \<bar>x\<bar> = e" using assms(1-3) by (intro binade_unique) simp_all
  then have u: "ulp_exponent x = e - 52" using assms(4) by (simp add: ulp_exponent_def)
  have "rne (x / 2 powi (e - 52)) = r" using assms(5) by (intro rne_unique) simp
  then show ?thesis by (simp add: round64_def u)
qed


lemma double_below_1:
  assumes "round64 r = r" "0 \<le> r" "r < 1"
  shows "r \<le> 1 - 1 / 2 ^ 53"
proof (cases "r = 0")
  case True
  then show ?thesis by simp
next
  case False
  with assms have r: "0 < r" by simp
  have "r < 2 powi 0" using assms(3) by simp
  with r have b: "binade r < 0" by (rule binade_less)
  show ?thesis
  proof (cases "binade r = - 1")
    case True
    then have u: "ulp_exponent r = - 53" using r by (simp add: ulp_exponent_def)
    let ?k = "rne (r / 2 powi (- 53))"
    have form: "r = of_int ?k * 2 powi (- 53)"
      using assms(1) by (simp add: round64_def u)
    have p: "(2::rat) powi (- 53) = 1 / 2 ^ 53" by (simp add: power_int_minus field_simps)
    have "of_int ?k * (1 / 2 ^ 53) < (1::rat)" using form assms(3) p by simp
    then have "(of_int ?k :: rat) < of_int (2 ^ 53)" by (simp add: field_simps)
    then have "?k < 2 ^ 53" by (simp only: of_int_less_iff)
    then have "?k \<le> 2 ^ 53 - 1" by simp
    then have "(of_int ?k :: rat) \<le> of_int (2 ^ 53 - 1)" by (simp only: of_int_le_iff)
    then have "of_int ?k * (1 / 2 ^ 53) \<le> (of_int (2 ^ 53 - 1) :: rat) * (1 / 2 ^ 53)"
      by (intro mult_right_mono) simp_all
    then show ?thesis using form p by (simp add: field_simps)
  next
    case False
    with b have "binade r + 1 \<le> - 1" by simp
    then have "(2::rat) powi (binade r + 1) \<le> 2 powi (- 1)"
      by (intro power_int_increasing) simp_all
    with binade_bounds [OF r] have "r < 1 / 2" by simp
    then show ?thesis by simp
  qed
qed

lemma fl_finite: "\<bar>x\<bar> \<le> 2 ^ 1023 \<Longrightarrow> fl x = Num (round64 x)"
proof -
  assume x: "\<bar>x\<bar> \<le> 2 ^ 1023"
  have p: "round64 (2 ^ 1023) = 2 ^ 1023"
    using round64_dyadic [of "2 ^ 1023" 1 1023] by simp
  have "round64 x \<le> round64 (2 ^ 1023)"
    using x by (intro round64_mono) simp
  then have up: "round64 x \<le> 2 ^ 1023"
    by (simp only: p)
  have "round64 (- (2 ^ 1023)) \<le> round64 x"
    using x by (intro round64_mono) simp
  then have lo: "- (2 ^ 1023) \<le> round64 x"
    by (simp only: round64_minus p)
  have "(2::rat) ^ 1023 < 2 ^ 1024"
    by (rule power_strict_increasing) simp_all
  with up lo have "round64 x < 2 ^ 1024" "- (2 ^ 1024) < round64 x"
    by linarith+
  then show ?thesis
    by (simp add: fl_def Let_def)
qed

lemma fl_of_int: "\<bar>k\<bar> < 2 ^ 53 \<Longrightarrow> fl (of_int k) = Num (of_int k)"
proof -
  assume k: "\<bar>k\<bar> < 2 ^ 53"
  then have "\<bar>k\<bar> \<le> 2 ^ 1023" by simp
  then have "\<bar>of_int k :: rat\<bar> \<le> 2 ^ 1023"
    by (metis of_int_abs of_int_le_iff of_int_numeral of_int_power)
  then show ?thesis using k by (simp add: fl_finite round64_of_int)
qed

lemma fl_eval:
  assumes "0 < x" "2 powi e \<le> x" "x < 2 powi (e + 1)" "- 1022 \<le> e" "e \<le> 1022"
    "\<bar>of_int r - x / 2 powi (e - 52)\<bar> < 1 / 2"
  shows "fl x = Num (of_int r * 2 powi (e - 52))"
proof -
  have "(2::rat) powi (e + 1) \<le> 2 powi 1023"
    using assms(5) by (intro power_int_increasing) simp_all
  then have "\<bar>x\<bar> \<le> 2 ^ 1023" using assms(1,3) by simp
  then have "fl x = Num (round64 x)" by (rule fl_finite)
  then show ?thesis using round64_eval [OF assms(1-4) assms(6)] by simp
qed


section \<open>Properties of the progress\<close>

lemma progress_addLogEntry [simp]: "progress (addLogEntry entry st) = progress st"
  by (simp add: addLogEntry_def Let_def)








lemma fl_small_ints: "fl 0 = Num 0" "fl 1 = Num 1" "fl 2 = Num 2" "fl 3 = Num 3" "fl 4 = Num 4"
  "fl 10 = Num 10" "fl 23 = Num 23" "fl 40 = Num 40"
  using fl_of_int [of 0] fl_of_int [of 1] fl_of_int [of 2] fl_of_int [of 3] fl_of_int [of 4]
    fl_of_int [of 10] fl_of_int [of 23] fl_of_int [of 40]
  by simp_all




subsection \<open>The simulated progress\<close>

lemma round64_consts:
  "round64 8 = 8" "round64 5 = 5" "round64 2 = 2" "round64 99 = 99" "round64 107 = 107"
  using round64_of_int [of 8] round64_of_int [of 5] round64_of_int [of 2] round64_of_int [of 99]
    round64_of_int [of 107]
  by simp_all

lemma round64_half: "round64 (1 / 2) = 1 / 2"
  using round64_dyadic [of "1 / 2" 1 "- 1"] by simp

lemma round64_tenth: "round64 (1 / 10) = 3602879701896397 / 36028797018963968"
  using round64_eval [of "1 / 10" "- 4" 7205759403792794] by simp

lemma band_consts:
  "round64 (band p) =
     (if p < 30 then 8 else if p < 60 then 5 else if p < 85 then 2
      else if p < 95 then 1 / 2 else 3602879701896397 / 36028797018963968)"
  by (simp add: band_def round64_consts round64_half round64_tenth)

lemma fl_band: "fl (band p) = Num (round64 (band p))"
  by (rule fl_finite) (simp add: band_def)

text \<open>The largest binary64 value below 1, multiplied by each of the five constants.\<close>

lemma top_8: "round64 ((1 - 1 / 2 ^ 53) * 8) < 8"
  using round64_dyadic [of "(1 - 1 / 2 ^ 53) * 8" 9007199254740991 "- 50"] by simp

lemma top_5: "round64 ((1 - 1 / 2 ^ 53) * 5) < 5"
  using round64_eval [of "(1 - 1 / 2 ^ 53) * 5" 2 5629499534213119] by simp

lemma top_2: "round64 ((1 - 1 / 2 ^ 53) * 2) < 2"
  using round64_dyadic [of "(1 - 1 / 2 ^ 53) * 2" 9007199254740991 "- 52"] by simp

lemma top_half: "round64 ((1 - 1 / 2 ^ 53) * (1 / 2)) < 1 / 2"
  using round64_dyadic [of "(1 - 1 / 2 ^ 53) * (1 / 2)" 9007199254740991 "- 54"] by simp

lemma top_tenth:
  "round64 ((1 - 1 / 2 ^ 53) * (3602879701896397 / 36028797018963968)) < 1 / 10"
  using round64_eval [of "(1 - 1 / 2 ^ 53) * (3602879701896397 / 36028797018963968)" "- 4"
      7205759403792793]
  by simp

lemma step_bounds:
  assumes "round64 r = r" "0 \<le> r" "r < 1"
  shows "0 \<le> round64 (r * round64 (band p)) \<and> round64 (r * round64 (band p)) < band p"
proof -
  have r: "r \<le> 1 - 1 / 2 ^ 53" using assms by (rule double_below_1)
  have c: "0 \<le> round64 (band p)" by (simp add: band_consts)
  have "0 \<le> r * round64 (band p)" using assms(2) c by simp
  then have lo: "0 \<le> round64 (r * round64 (band p))" by (rule round64_nonneg)
  have "r * round64 (band p) \<le> (1 - 1 / 2 ^ 53) * round64 (band p)"
    using r c by (rule mult_right_mono)
  then have "round64 (r * round64 (band p)) \<le> round64 ((1 - 1 / 2 ^ 53) * round64 (band p))"
    by (rule round64_mono)
  moreover have "round64 ((1 - 1 / 2 ^ 53) * round64 (band p)) < band p"
    using top_8 top_5 top_2 top_half top_tenth by (simp add: band_consts) (simp add: band_def)
  ultimately show ?thesis using lo by linarith
qed

lemma Math_min_Num: "Math_min (Num a) (Num b) = Num (min a b)"
  by (simp add: min_def)

lemma fl_sum:
  assumes "0 \<le> p" "p \<le> 99" "0 \<le> s" "s \<le> 8"
  shows "fl (p + s) = Num (round64 (p + s))"
  using assms by (intro fl_finite) simp

lemma fl_product:
  assumes "0 \<le> r" "r < 1"
  shows "fl (r * round64 (band p)) = Num (round64 (r * round64 (band p)))"
proof (rule fl_finite)
  have c: "0 \<le> round64 (band p)" "round64 (band p) \<le> 8" by (simp_all add: band_consts)
  have "r * round64 (band p) \<le> 1 * 8"
    using assms c by (intro mult_mono) simp_all
  moreover have "0 \<le> r * round64 (band p)"
    using assms c by simp
  ultimately show "\<bar>r * round64 (band p)\<bar> \<le> 2 ^ 1023" by simp
qed

lemma band_le_8: "band p \<le> 8"
  by (simp add: band_def)

lemma tick_finite:
  assumes "0 \<le> p" "p \<le> 99" "round64 r = r" "0 \<le> r" "r < 1"
  shows "tick (Num p) r = Num (min 99 (round64 (p + round64 (r * round64 (band p)))))"
proof -
  let ?s = "round64 (r * round64 (band p))"
  have s: "0 \<le> ?s" "?s < band p" using step_bounds [OF assms(3-5), of p] by simp_all
  then have s8: "?s \<le> 8" using band_le_8 [of p] by linarith
  have sum: "fl (p + ?s) = Num (round64 (p + ?s))"
    using assms(1,2) s(1) s8 by (rule fl_sum)
  have prod: "fl (r * round64 (band p)) = Num ?s"
    using assms(4,5) by (rule fl_product)
  have tenth: "fl (1 / 10) = Num (3602879701896397 / 36028797018963968)"
    using fl_finite [of "1 / 10"] by (simp add: round64_tenth)
  consider "p < 30" | "30 \<le> p" "p < 60" | "60 \<le> p" "p < 85" | "85 \<le> p" "p < 95" | "95 \<le> p"
    by linarith
  then show ?thesis
  proof cases
    case 1
    with prod sum show ?thesis by (simp add: tick_def band_consts Math_min_Num del: Math_min.simps)
  next
    case 2
    with prod sum show ?thesis by (simp add: tick_def band_consts Math_min_Num del: Math_min.simps)
  next
    case 3
    with prod sum show ?thesis by (simp add: tick_def band_consts Math_min_Num del: Math_min.simps)
  next
    case 4
    with prod sum show ?thesis by (simp add: tick_def band_consts Math_min_Num del: Math_min.simps)
  next
    case 5
    with prod sum tenth show ?thesis
      by (simp add: tick_def band_consts Math_min_Num del: Math_min.simps)
  qed
qed

lemma tick_at_most_99: "\<not> js_less (Num 99) (tick prev r)"
proof -
  have m: "\<not> js_less (Num 99) (Math_min (Num 99) y)" for y
    by (cases y) simp_all
  show ?thesis by (simp only: tick_def Let_def m not_False_eq_True)
qed

lemma tick_step:
  assumes "round64 p = p" "0 \<le> p" "p \<le> 99" "round64 r = r" "0 \<le> r" "r < 1"
  shows "\<exists>q. tick (Num p) r = Num q \<and> q = min 99 (round64 (p + round64 (r * round64 (band p)))) \<and>
             round64 q = q \<and> p \<le> q \<and> q \<le> 99"
proof -
  let ?s = "round64 (r * round64 (band p))"
  let ?q = "min 99 (round64 (p + ?s))"
  have s: "0 \<le> ?s" using step_bounds [OF assms(4-6), of p] by simp
  have "round64 p \<le> round64 (p + ?s)" using s by (intro round64_mono) simp
  then have ge: "p \<le> round64 (p + ?s)" by (simp only: assms(1))
  have d: "round64 ?q = ?q"
    by (cases "99 \<le> round64 (p + ?s)") (simp_all add: min_def round64_consts round64_idem)
  show ?thesis
    using tick_finite [OF assms(2,3,4,5,6)] ge assms(3) d by (intro exI [of _ ?q]) simp
qed

lemma ticks_sorted_bounded:
  "round64 p = p \<Longrightarrow> 0 \<le> p \<Longrightarrow> p \<le> 99 \<Longrightarrow> \<forall>r\<in>set rs. round64 r = r \<and> 0 \<le> r \<and> r < 1 \<Longrightarrow>
   \<exists>qs. ticks (Num p) rs = map Num qs \<and> sorted (p # qs) \<and> (\<forall>q\<in>set qs. q \<le> 99)"
proof (induction rs arbitrary: p)
  case Nil
  show ?case by simp
next
  case (Cons r rs)
  have r: "round64 r = r" "0 \<le> r" "r < 1" using Cons.prems(4) by simp_all
  from tick_step [OF Cons.prems(1-3) r]
  obtain q where q: "tick (Num p) r = Num q" "round64 q = q" "p \<le> q" "q \<le> 99" by blast
  have "0 \<le> q" using q(3) Cons.prems(2) by linarith
  moreover have "\<forall>r\<in>set rs. round64 r = r \<and> 0 \<le> r \<and> r < 1" using Cons.prems(4) by simp
  ultimately obtain qs where qs: "ticks (Num q) rs = map Num qs" "sorted (q # qs)"
      "\<forall>x\<in>set qs. x \<le> 99"
    using Cons.IH [of q] q(2,4) by blast
  have "ticks (Num p) (r # rs) = map Num (q # qs)" using qs(1) q(1) by simp
  moreover have "sorted (p # q # qs)" using qs(2) q(3) by fastforce
  moreover have "\<forall>x\<in>set (q # qs). x \<le> 99" using qs(3) q(4) by simp
  ultimately show ?case by blast
qed

text \<open>
  Claim C3. For a current value \<open>p\<close> of the table, from 0 to 99, and a draw \<open>r\<close> from 0 up
  to 1, both binary64 values: the step is the product of the draw and the width of the
  band of \<open>p\<close>, as binary64 computes it, and it lies from 0 up to that width; the next
  value is the binary64 sum of \<open>p\<close> and the step, clamped to 99; it is not below \<open>p\<close> and
  it is below 100. Over any run of ticks the values never decrease and stay below 100,
  and from no value whatever does a tick yield 100.
\<close>

theorem tick_policy:
  assumes "round64 p = p" "0 \<le> p" "p \<le> 99" "\<forall>x\<in>set (r # rs). round64 x = x \<and> 0 \<le> x \<and> x < 1"
  shows "(\<exists>step. js_mul (Num r) (fl (band p)) = Num step \<and> 0 \<le> step \<and> step < band p \<and>
            tick (Num p) r = Math_min (Num 99) (js_add (Num p) (Num step)) \<and>
            (\<exists>q. tick (Num p) r = Num q \<and> q = min 99 (round64 (p + step)) \<and> p \<le> q \<and> q < 100)) \<and>
         (\<exists>qs. ticks (Num p) (r # rs) = map Num qs \<and> sorted (p # qs) \<and> (\<forall>q\<in>set qs. q < 100)) \<and>
         (\<forall>prev x. tick prev x \<noteq> Num 100)"
proof (intro conjI)
  have r: "round64 r = r" "0 \<le> r" "r < 1" using assms(4) by simp_all
  let ?s = "round64 (r * round64 (band p))"
  have s: "0 \<le> ?s" "?s < band p" using step_bounds [OF r, of p] by simp_all
  then have s8: "?s \<le> 8" using band_le_8 [of p] by linarith
  have prod: "js_mul (Num r) (fl (band p)) = Num ?s"
    using fl_product [OF r(2,3), of p] by (simp add: fl_band)
  have sum: "js_add (Num p) (Num ?s) = Num (round64 (p + ?s))"
    using fl_sum [OF assms(2,3) s(1) s8] by simp
  from tick_step [OF assms(1-3) r]
  obtain q where q: "tick (Num p) r = Num q" "q = min 99 (round64 (p + ?s))" "p \<le> q" "q \<le> 99"
    by blast
  have "tick (Num p) r = Math_min (Num 99) (js_add (Num p) (Num ?s))"
    using q(1,2) by (simp only: sum Math_min_Num)
  moreover have "\<exists>q. tick (Num p) r = Num q \<and> q = min 99 (round64 (p + ?s)) \<and> p \<le> q \<and> q < 100"
    using q by (intro exI [of _ q]) simp
  ultimately show "\<exists>step. js_mul (Num r) (fl (band p)) = Num step \<and> 0 \<le> step \<and> step < band p \<and>
            tick (Num p) r = Math_min (Num 99) (js_add (Num p) (Num step)) \<and>
            (\<exists>q. tick (Num p) r = Num q \<and> q = min 99 (round64 (p + step)) \<and> p \<le> q \<and> q < 100)"
    using prod s by (intro exI [of _ ?s]) (simp only: simp_thms)
next
  from ticks_sorted_bounded [OF assms]
  obtain qs where "ticks (Num p) (r # rs) = map Num qs" "sorted (p # qs)" "\<forall>q\<in>set qs. q \<le> 99"
    by blast
  then show "\<exists>qs. ticks (Num p) (r # rs) = map Num qs \<and> sorted (p # qs) \<and> (\<forall>q\<in>set qs. q < 100)"
    by (intro exI [of _ qs]) fastforce
next
  show "\<forall>prev x. tick prev x \<noteq> Num 100"
  proof (intro allI notI)
    fix prev x
    assume "tick prev x = Num 100"
    with tick_at_most_99 [of prev x] show False by simp
  qed
qed

text \<open>
  Three ticks from the start of a run, with the draws 1/2, 1/4 and 3/4; and the tick
  from 47 with the draw \<open>1 - 2\<^sup>-\<^sup>5\<^sup>2\<close>, whose step is just below 5 and whose sum is
  rounded to 52.
\<close>

lemma fl_tick_consts:
  "fl 6 = Num 6" "fl 12 = Num 12"
  "fl (22517998136852475 / 4503599627370496) = Num (5629499534213119 / 1125899906842624)"
  "fl (58546795155816447 / 1125899906842624) = Num 52"
  using fl_of_int [of 6] fl_of_int [of 12]
    fl_eval [of "22517998136852475 / 4503599627370496" 2 5629499534213119]
    fl_eval [of "58546795155816447 / 1125899906842624" 5 7318349394477056]
  by simp_all

lemma round64_draws:
  "round64 (1 / 4) = 1 / 4" "round64 (3 / 4) = 3 / 4"
  using round64_dyadic [of "1 / 4" 1 "- 2"] round64_dyadic [of "3 / 4" 3 "- 2"]
  by simp_all

theorem tick_policy_witness:
  "round64 0 = 0 \<and> (0::rat) \<le> 99 \<and> round64 (1 / 2) = 1 / 2 \<and> (1 / 2 :: rat) < 1 \<and>
   ticks (Num 0) [1 / 2, 1 / 4, 3 / 4] = [Num 4, Num 6, Num 12] \<and>
   tick (Num 47) (4503599627370495 / 4503599627370496) = Num 52"
  using tick_policy [of 0 "1 / 2" "[1 / 4, 3 / 4]"]
  by (simp add: tick_def Let_def fl_small_ints fl_tick_consts round64_half round64_draws)

section \<open>Properties of the event handling\<close>

lemma read_loop_throws:
  "snd (read_loop on_frame on_final dec buffer cs e st) =
     (case e of EndOfStream \<Rightarrow> None | ReadFailure err \<Rightarrow> Some err)"
  by (induction cs arbitrary: dec buffer st) (cases e; simp add: Let_def split: prod.splits)+


text \<open>
  Claim C4. On a complete event the progress becomes 100, the result is made of the four
  counts of the event, whatever the state held before, and a completion entry is
  appended to the log; when the event carries a non-empty payload that \<open>atob\<close> decodes,
  the download is installed: the object URL of the decoded bytes and the file name of
  the event.
\<close>

theorem complete_transition:
  assumes "handleSSEEvent st (Complete s elapsed file filename) = (st', thrown)"
  shows "progress st' = Num 100 \<and>
     result st' = Some \<lparr>total = procesadas s, encontrados = encontradas s,
                        noEncontrados = no_encontradas s, errores = errores_s s\<rparr> \<and>
     logEntries st' = logEntries st @
       [\<lparr>entry_type = T_complete, row = None, direccion = None,
         municipio = None, cp = None,
         message = Some [Text (lit ''Completado en '' @ elapsed)]\<rparr>] \<and>
     (\<forall>f bytes. file = Some f \<and> f \<noteq> [] \<and> atob f = Some bytes \<longrightarrow>
        downloadUrl st' = Some (ObjectURL bytes) \<and> downloadFilename st' = filename \<and>
        thrown = None)"
  using assms
  by (auto simp: addLogEntry_def new_entry_def Let_def split: option.splits if_splits)

lemma atob_QUJD: "atob (lit ''QUJD'') = Some [0x41, 0x42, 0x43]"
  by (simp add: atob_def lit_def strip_padding_def ascii_whitespace_def base64_index_def Let_def)

lemma atob_bang: "atob (lit ''!'') = None"
  by (simp add: atob_def lit_def strip_padding_def ascii_whitespace_def base64_index_def Let_def)

text \<open>A complete event after two rows, with the payload \<open>QUJD\<close>, the bytes of \<open>ABC\<close>.\<close>

theorem complete_transition_witness:
  "atob (lit ''QUJD'') = Some [0x41, 0x42, 0x43] \<and>
   handleSSEEvent initial_state
     (Complete \<lparr>procesadas = 2, encontradas = 1, no_encontradas = 1, errores_s = 0\<rparr>
        (lit ''5s'') (Some (lit ''QUJD'')) (Some (lit ''out.xlsx''))) =
   (initial_state
      \<lparr>progress := Num 100,
       result := Some \<lparr>total = 2, encontrados = 1, noEncontrados = 1, errores = 0\<rparr>,
       downloadUrl := Some (ObjectURL [0x41, 0x42, 0x43]),
       downloadFilename := Some (lit ''out.xlsx''),
       logEntries :=
         [\<lparr>entry_type = T_complete, row = None, direccion = None,
           municipio = None, cp = None,
           message = Some [Text (lit ''Completado en '' @ lit ''5s'')]\<rparr>],
       logIdRef := 1\<rparr>, None)"
  using complete_transition
    [of initial_state "\<lparr>procesadas = 2, encontradas = 1, no_encontradas = 1, errores_s = 0\<rparr>"
      "lit ''5s''" "Some (lit ''QUJD'')" "Some (lit ''out.xlsx'')"
      "fst (handleSSEEvent initial_state
         (Complete \<lparr>procesadas = 2, encontradas = 1, no_encontradas = 1, errores_s = 0\<rparr>
            (lit ''5s'') (Some (lit ''QUJD'')) (Some (lit ''out.xlsx''))))"
      "snd (handleSSEEvent initial_state
         (Complete \<lparr>procesadas = 2, encontradas = 1, no_encontradas = 1, errores_s = 0\<rparr>
            (lit ''5s'') (Some (lit ''QUJD'')) (Some (lit ''out.xlsx''))))"]
    atob_QUJD
  by (simp add: addLogEntry_def new_entry_def initial_state_def lit_def Let_def)



text \<open>
  Claim C7, as the code has it. When \<open>atob\<close> rejects the payload of a complete event, the
  frame leaves the state that the same event without a payload leaves: the progress is
  100, the result holds the counts of the event, the completion entry is in the log, and
  no download is installed. The failure is caught by the \<open>try\<close> block of the frame: its
  only trace is the console warning that also reports a malformed frame; no error is
  stored and no log entry reports it.
\<close>

theorem undecodable_artifact:
  assumes "JSON_parse (slice line 6) = Some (Complete s elapsed (Some f) filename)"
    "f \<noteq> []" "atob f = None"
  shows "try_frame label JSON_parse st line =
           (fst (handleSSEEvent st (Complete s elapsed None filename)))
             \<lparr>console := console st @ [label InvalidCharacterError]\<rparr> \<and>
         progress (try_frame label JSON_parse st line) = Num 100 \<and>
         result (try_frame label JSON_parse st line) =
           Some \<lparr>total = procesadas s, encontrados = encontradas s,
                  noEncontrados = no_encontradas s, errores = errores_s s\<rparr> \<and>
         logEntries (try_frame label JSON_parse st line) = logEntries st @
           [\<lparr>entry_type = T_complete, row = None, direccion = None,
             municipio = None, cp = None,
             message = Some [Text (lit ''Completado en '' @ elapsed)]\<rparr>] \<and>
         downloadUrl (try_frame label JSON_parse st line) = downloadUrl st \<and>
         downloadFilename (try_frame label JSON_parse st line) = downloadFilename st \<and>
         error (try_frame label JSON_parse st line) = error st"
  using assms
  by (simp add: try_frame_def addLogEntry_def new_entry_def Let_def)


text \<open>The payload \<open>!\<close>, which \<open>atob\<close> rejects, on a complete event after two rows.\<close>

theorem undecodable_artifact_witness:
  "atob (lit ''!'') = None \<and>
   try_frame Error_parsing_SSE
     (\<lambda>s. Some (Complete \<lparr>procesadas = 2, encontradas = 1, no_encontradas = 1, errores_s = 0\<rparr>
                   (lit ''5s'') (Some (lit ''!'')) (Some (lit ''out.xlsx''))))
     initial_state (lit ''data: {}'') =
   initial_state
     \<lparr>progress := Num 100,
      result := Some \<lparr>total = 2, encontrados = 1, noEncontrados = 1, errores = 0\<rparr>,
      logEntries :=
        [\<lparr>entry_type = T_complete, row = None, direccion = None,
          municipio = None, cp = None,
          message = Some [Text (lit ''Completado en '' @ lit ''5s'')]\<rparr>],
      logIdRef := 1,
      console := [Error_parsing_SSE InvalidCharacterError]\<rparr>"
  using undecodable_artifact
    [of "\<lambda>s. Some (Complete \<lparr>procesadas = 2, encontradas = 1, no_encontradas = 1, errores_s = 0\<rparr>
                   (lit ''5s'') (Some (lit ''!'')) (Some (lit ''out.xlsx'')))"
      "lit ''data: {}''" "\<lparr>procesadas = 2, encontradas = 1, no_encontradas = 1, errores_s = 0\<rparr>"
      "lit ''5s''" "lit ''!''" "Some (lit ''out.xlsx'')" Error_parsing_SSE initial_state]
    atob_bang
  by (simp add: addLogEntry_def new_entry_def initial_state_def lit_def Let_def)

text \<open>
  The failure is not set apart. After the frame with the undecodable payload no error is
  stored and the log holds no error entry; the state is the one that the same event
  without a payload leaves, but for one console warning, and that warning has the label
  of the warning for a frame that is not JSON.
\<close>

theorem undecodable_artifact_counterexample:
  "error (try_frame Error_parsing_SSE
     (\<lambda>s. Some (Complete \<lparr>procesadas = 2, encontradas = 1, no_encontradas = 1, errores_s = 0\<rparr>
                   (lit ''5s'') (Some (lit ''!'')) (Some (lit ''out.xlsx''))))
     initial_state (lit ''data: {}'')) = None \<and>
   filter (\<lambda>e. entry_type e = T_error) (logEntries (try_frame Error_parsing_SSE
     (\<lambda>s. Some (Complete \<lparr>procesadas = 2, encontradas = 1, no_encontradas = 1, errores_s = 0\<rparr>
                   (lit ''5s'') (Some (lit ''!'')) (Some (lit ''out.xlsx''))))
     initial_state (lit ''data: {}''))) = [] \<and>
   try_frame Error_parsing_SSE
     (\<lambda>s. Some (Complete \<lparr>procesadas = 2, encontradas = 1, no_encontradas = 1, errores_s = 0\<rparr>
                   (lit ''5s'') (Some (lit ''!'')) (Some (lit ''out.xlsx''))))
     initial_state (lit ''data: {}'') =
   (try_frame Error_parsing_SSE
     (\<lambda>s. Some (Complete \<lparr>procesadas = 2, encontradas = 1, no_encontradas = 1, errores_s = 0\<rparr>
                   (lit ''5s'') None (Some (lit ''out.xlsx''))))
     initial_state (lit ''data: {}''))\<lparr>console := [Error_parsing_SSE InvalidCharacterError]\<rparr> \<and>
   console (try_frame Error_parsing_SSE (\<lambda>s. None) initial_state (lit ''data: {}'')) =
     [Error_parsing_SSE SyntaxError]"
  using atob_bang
  by (simp add: try_frame_def addLogEntry_def new_entry_def initial_state_def lit_def Let_def)

text \<open>
  Claim C8. An error event changes the state in two places only: one error entry is
  appended to the log, whose earlier entries stay, and the error is stored. A rejected
  \<open>fetch\<close>, a response that is not \<open>ok\<close> and a failed read all leave the \<open>try\<close> block with
  an error, the first two without having touched the state; and whenever the \<open>try\<close>
  block ends with an error, the run ends in the state that the block had reached, with
  one error entry appended to its log, the error stored and the timer stopped: the
  progress, the total, the result and the download are the ones reached.
\<close>

theorem fatal_transitions_preserve:
  "handleSSEEvent st (Error_event m) =
     (st\<lparr>logIdRef := logIdRef st + 1,
         logEntries := logEntries st @
           [\<lparr>entry_type = T_error, row = None, direccion = None, municipio = None, cp = None,
             message = Some [Text m]\<rparr>],
         error := Some \<lparr>error_message = [Text m], error_status = None,
                         error_details = None\<rparr>\<rparr>, None) \<and>
   try_block JSON_parse (Rejected err) st0 = (st0, Some err) \<and>
   try_block JSON_parse (Response False code statusText body) st0 =
     (st0, Some (An_Error [Text (lit ''Error ''), Number code, Text (lit '': '' @ statusText)])) \<and>
   snd (try_block JSON_parse
          (Response True code statusText (Some \<lparr>chunks = cs, ending = ReadFailure err\<rparr>)) st0) =
     Some err \<and>
   (try_block JSON_parse response (begin_run f st) = (st1, Some err) \<longrightarrow>
      processFile JSON_parse (Some f) Online response st =
        st1\<lparr>logIdRef := logIdRef st1 + 1,
            logEntries := logEntries st1 @
              [\<lparr>entry_type = T_error, row = None, direccion = None, municipio = None, cp = None,
                message = Some (Text (lit ''Error: '') # errorMessage err)\<rparr>],
            error := Some \<lparr>error_message = errorMessage err, error_status = None,
                            error_details = None\<rparr>,
            timerRunning := False, isProcessing := False\<rparr>)"
proof (intro conjI impI)
  show "handleSSEEvent st (Error_event m) =
     (st\<lparr>logIdRef := logIdRef st + 1,
         logEntries := logEntries st @
           [\<lparr>entry_type = T_error, row = None, direccion = None, municipio = None, cp = None,
             message = Some [Text m]\<rparr>],
         error := Some \<lparr>error_message = [Text m], error_status = None,
                         error_details = None\<rparr>\<rparr>, None)"
    by (simp add: addLogEntry_def new_entry_def)
next
  show "try_block JSON_parse (Rejected err) st0 = (st0, Some err)"
    by (simp add: try_block_def)
next
  show "try_block JSON_parse (Response False code statusText body) st0 =
     (st0, Some (An_Error [Text (lit ''Error ''), Number code, Text (lit '': '' @ statusText)]))"
    by (simp add: try_block_def)
next
  show "snd (try_block JSON_parse
          (Response True code statusText (Some \<lparr>chunks = cs, ending = ReadFailure err\<rparr>)) st0) =
     Some err"
    by (simp add: try_block_def read_loop_throws)
next
  assume "try_block JSON_parse response (begin_run f st) = (st1, Some err)"
  then show "processFile JSON_parse (Some f) Online response st =
        st1\<lparr>logIdRef := logIdRef st1 + 1,
            logEntries := logEntries st1 @
              [\<lparr>entry_type = T_error, row = None, direccion = None, municipio = None, cp = None,
                message = Some (Text (lit ''Error: '') # errorMessage err)\<rparr>],
            error := Some \<lparr>error_message = errorMessage err, error_status = None,
                            error_details = None\<rparr>,
            timerRunning := False, isProcessing := False\<rparr>"
    by (simp add: processFile_def catch_block_def addLogEntry_def new_entry_def)
qed

text \<open>A run that the server answers with the status 500.\<close>

theorem fatal_transitions_preserve_witness:
  "processFile (\<lambda>s. None) (Some \<lparr>name = lit ''a.xlsx''\<rparr>) Online
     (Response False 500 (lit ''Internal Server Error'') None) initial_state =
   initial_state\<lparr>isProcessing := False, showLog := True, logIdRef := 2,
     logEntries :=
       [\<lparr>entry_type = T_info, row = None, direccion = None, municipio = None,
         cp = None, message = Some [Text (lit ''Iniciando procesamiento de a.xlsx...'')]\<rparr>,
        \<lparr>entry_type = T_error, row = None, direccion = None, municipio = None,
         cp = None,
         message = Some [Text (lit ''Error: ''), Text (lit ''Error ''), Number 500,
                         Text (lit '': Internal Server Error'')]\<rparr>],
     error := Some \<lparr>error_message = [Text (lit ''Error ''), Number 500,
                                       Text (lit '': Internal Server Error'')],
                     error_status = None, error_details = None\<rparr>\<rparr>"
  using fatal_transitions_preserve
    [where JSON_parse = "\<lambda>s. None" and f = "\<lparr>name = lit ''a.xlsx''\<rparr>"
      and st = initial_state
      and response = "Response False 500 (lit ''Internal Server Error'') None"
      and ?st1.0 = "begin_run \<lparr>name = lit ''a.xlsx''\<rparr> initial_state"
      and err = "An_Error [Text (lit ''Error ''), Number 500,
                           Text (lit '': '' @ lit ''Internal Server Error'')]"]
  by (simp add: try_block_def begin_run_def addLogEntry_def new_entry_def initial_state_def
      errorMessage_def lit_def)


section \<open>Properties of the one-shot summary\<close>

lemma result_response_ok:
  "result_f (response_ok JSON_parse blob statsHeader timeHeader seconds st) =
     Some (case fst (stats_from_header JSON_parse statsHeader) of
             Some s \<Rightarrow> s | None \<Rightarrow> zero_summary)"
  by (simp add: response_ok_def zero_summary_def Let_def split: prod.splits option.splits)

lemma read_stats_Object:
  "read_stats (Object ps) =
     Some \<lparr>total_f = field_or_zero ps (lit ''procesadas''),
           encontrados_f = field_or_zero ps (lit ''encontradas''),
           noEncontrados_f = field_or_zero ps (lit ''no_encontradas''),
           errores_f = field_or_zero ps (lit ''errores'')\<rparr>"
  by (simp add: read_stats_def field_or_zero_def nullish_def split: option.splits)

lemma read_stats_not_Object:
  "read_stats v = None \<or> read_stats v = Some zero_summary \<or> (\<exists>ps. v = Object ps)"
  by (cases v) (simp_all add: read_stats_def zero_summary_def nullish_def)

text \<open>
  Claim C9. After a successful response the result is always a summary. It is the zero
  summary when the statistics header is absent or empty, when \<open>JSON.parse\<close> rejects it,
  and when it parses to a value that is not an object; when it parses to an object, each
  count is the field of that object, with zero for a field that is missing. A field that
  is present with the value zero is read like any other value.
\<close>

theorem fallback_summary:
  "result_f (response_ok JSON_parse blob None timeHeader seconds st) = Some zero_summary \<and>
   result_f (response_ok JSON_parse blob (Some []) timeHeader seconds st) = Some zero_summary \<and>
   (JSON_parse h = None \<longrightarrow>
      result_f (response_ok JSON_parse blob (Some h) timeHeader seconds st) = Some zero_summary) \<and>
   (h \<noteq> [] \<and> JSON_parse h = Some (Object ps) \<longrightarrow>
      result_f (response_ok JSON_parse blob (Some h) timeHeader seconds st) =
        Some \<lparr>total_f = field_or_zero ps (lit ''procesadas''),
              encontrados_f = field_or_zero ps (lit ''encontradas''),
              noEncontrados_f = field_or_zero ps (lit ''no_encontradas''),
              errores_f = field_or_zero ps (lit ''errores'')\<rparr>) \<and>
   (\<forall>v. JSON_parse h = Some v \<and> (\<forall>ps. v \<noteq> Object ps) \<longrightarrow>
      result_f (response_ok JSON_parse blob (Some h) timeHeader seconds st) = Some zero_summary)"
proof (intro conjI impI allI)
  show "result_f (response_ok JSON_parse blob None timeHeader seconds st) = Some zero_summary"
    by (simp add: result_response_ok stats_from_header_def)
  show "result_f (response_ok JSON_parse blob (Some []) timeHeader seconds st) = Some zero_summary"
    by (simp add: result_response_ok stats_from_header_def)
  show "result_f (response_ok JSON_parse blob (Some h) timeHeader seconds st) = Some zero_summary"
    if "JSON_parse h = None"
    using that by (simp add: result_response_ok stats_from_header_def)
  show "result_f (response_ok JSON_parse blob (Some h) timeHeader seconds st) =
        Some \<lparr>total_f = field_or_zero ps (lit ''procesadas''),
              encontrados_f = field_or_zero ps (lit ''encontradas''),
              noEncontrados_f = field_or_zero ps (lit ''no_encontradas''),
              errores_f = field_or_zero ps (lit ''errores'')\<rparr>"
    if "h \<noteq> [] \<and> JSON_parse h = Some (Object ps)"
    using that by (simp add: result_response_ok stats_from_header_def read_stats_Object)
  show "result_f (response_ok JSON_parse blob (Some h) timeHeader seconds st) = Some zero_summary"
    if "JSON_parse h = Some v \<and> (\<forall>ps. v \<noteq> Object ps)" for v
    using that read_stats_not_Object [of v]
    by (auto simp: result_response_ok stats_from_header_def split: option.splits)
qed

text \<open>
  A header that gives zero rows processed and seven found and says nothing of the other
  two counts, and a header that does not parse.
\<close>

theorem fallback_summary_witness:
  "result_f (response_ok
      (\<lambda>s. if s = lit ''{}'' then
              Some (Object [(lit ''procesadas'', Numeric (Num 0)),
                            (lit ''encontradas'', Numeric (Num 7))])
            else None)
      [] (Some (lit ''{}'')) None 5 initial_fallback_state) =
     Some \<lparr>total_f = Numeric (Num 0), encontrados_f = Numeric (Num 7),
           noEncontrados_f = Numeric (Num 0), errores_f = Numeric (Num 0)\<rparr> \<and>
   result_f (response_ok
      (\<lambda>s. if s = lit ''{}'' then
              Some (Object [(lit ''procesadas'', Numeric (Num 0)),
                            (lit ''encontradas'', Numeric (Num 7))])
            else None)
      [] (Some (lit ''{'')) None 5 initial_fallback_state) = Some zero_summary"
  using fallback_summary
    [of "\<lambda>s. if s = lit ''{}'' then
              Some (Object [(lit ''procesadas'', Numeric (Num 0)),
                            (lit ''encontradas'', Numeric (Num 7))])
            else None"
      "[]" None 5 initial_fallback_state "lit ''{}''"
      "[(lit ''procesadas'', Numeric (Num 0)), (lit ''encontradas'', Numeric (Num 7))]"]
    fallback_summary
    [of "\<lambda>s. if s = lit ''{}'' then
              Some (Object [(lit ''procesadas'', Numeric (Num 0)),
                            (lit ''encontradas'', Numeric (Num 7))])
            else None"
      "[]" None 5 initial_fallback_state "lit ''{''"]
  by (simp add: field_or_zero_def lit_def)

section \<open>Frames after an error event\<close>






section \<open>The frame decoding on concrete streams\<close>

lemmas decoding_defs =
  frames_def data_prefix_def lit_def pop_or_empty_def for_lines_def new_TextDecoder_def
  decode_byte_def utf8_byte_def first_byte_def reset_sequence_def code_units_def
  decoded_text_def Let_def

text \<open>
  The stream of the two lines \<open>data: \<close> followed by U+00E9, and \<open>data: A\<close>, cut inside the
  prefix, inside the two bytes of U+00E9, after the line feed and inside the second
  prefix, with an empty chunk among the chunks; and the same stream in one chunk.
\<close>

theorem chunk_boundary_invariance_witness:
  "frames [[0x64, 0x61, 0x74], [0x61, 0x3A, 0x20, 0xC3], [0xA9, 0x0A], [],
           [0x64], [0x61, 0x74, 0x61, 0x3A, 0x20, 0x41]] =
     [lit ''data: '' @ [0xE9], lit ''data: A''] \<and>
   frames [[0x64, 0x61, 0x74, 0x61, 0x3A, 0x20, 0xC3, 0xA9, 0x0A,
            0x64, 0x61, 0x74, 0x61, 0x3A, 0x20, 0x41]] =
     [lit ''data: '' @ [0xE9], lit ''data: A'']"
  using chunk_boundary_invariance
    [of "[[0x64, 0x61, 0x74], [0x61, 0x3A, 0x20, 0xC3], [0xA9, 0x0A], [],
           [0x64], [0x61, 0x74, 0x61, 0x3A, 0x20, 0x41]]"]
  by (simp add: decoding_defs)

text \<open>
  A stream of four lines, of which the second and the unterminated last one do not start
  with the prefix; and a stream whose unterminated last line does.
\<close>

theorem frames_exactly_once_witness:
  "split_nl (decoded_text [0x64, 0x61, 0x74, 0x61, 0x3A, 0x20, 0x31, 0x0A, 0x78, 0x0A,
                           0x64, 0x61, 0x74, 0x61, 0x3A, 0x20, 0x32, 0x0A, 0x64, 0x61]) =
     [lit ''data: 1'', lit ''x'', lit ''data: 2'', lit ''da''] \<and>
   frames [[0x64, 0x61, 0x74, 0x61, 0x3A, 0x20, 0x31, 0x0A, 0x78, 0x0A,
            0x64, 0x61, 0x74, 0x61, 0x3A, 0x20, 0x32, 0x0A, 0x64, 0x61]] =
     [lit ''data: 1'', lit ''data: 2''] \<and>
   frames [[0x64, 0x61, 0x74, 0x61, 0x3A, 0x20, 0x31, 0x0A],
           [0x64, 0x61, 0x74, 0x61, 0x3A, 0x20, 0x32]] =
     [lit ''data: 1'', lit ''data: 2'']"
  using frames_exactly_once
    [of "[[0x64, 0x61, 0x74, 0x61, 0x3A, 0x20, 0x31, 0x0A, 0x78, 0x0A,
            0x64, 0x61, 0x74, 0x61, 0x3A, 0x20, 0x32, 0x0A, 0x64, 0x61]]"]
  by (simp add: decoding_defs)

section \<open>The read loop after an error event\<close>





end
